theory Spec2Isabelle
  imports Complex_Main "HOL-Library.Sublist"
begin

section \<open>Hotspot annotations of the model viewer\<close>

text \<open>
  A shallow embedding of \<^verbatim>\<open>packages/model-viewer/src/features/annotation.ts\<close>: the
  class \<^verbatim>\<open>AnnotationModelViewerElement\<close> that the mixin builds. The element's mutable fields
  and the objects it shares with the scene are one state record; every method is a function
  from state to state. JavaScript numbers are idealised as real numbers.
\<close>

subsection \<open>Values of the three.js library\<close>

record Vector2 =
  v2x :: real
  v2y :: real

record Vector3 =
  v3x :: real
  v3y :: real
  v3z :: real

text \<open>\<^verbatim>\<open>Vector2.set\<close>, \<^verbatim>\<open>multiplyScalar\<close> and \<^verbatim>\<open>subScalar\<close>, each on both components.\<close>

definition set_v2 :: "real \<Rightarrow> real \<Rightarrow> Vector2" where
  "set_v2 a b = \<lparr>v2x = a, v2y = b\<rparr>"

definition multiplyScalar :: "real \<Rightarrow> Vector2 \<Rightarrow> Vector2" where
  "multiplyScalar k p = \<lparr>v2x = v2x p * k, v2y = v2y p * k\<rparr>"

definition subScalar :: "real \<Rightarrow> Vector2 \<Rightarrow> Vector2" where
  "subScalar k p = \<lparr>v2x = v2x p - k, v2y = v2y p - k\<rparr>"

text \<open>
  \<^verbatim>\<open>Matrix4\<close> stays abstract (the type variable \<open>'m\<close>): the two operations the picking
  code calls on it are parameters, so every theorem holds for whatever the library computes.
\<close>

record 'm Matrix4_ops =
  getInverse :: "'m \<Rightarrow> 'm"
  applyMatrix4 :: "Vector3 \<Rightarrow> 'm \<Rightarrow> Vector3"

subsection \<open>The Hotspot class\<close>

text \<open>
  \<^verbatim>\<open>HotspotConfiguration\<close>: the name and the two optional literals, as the constructor of
  \<^verbatim>\<open>Hotspot\<close> and \<^verbatim>\<open>updateHotspot\<close> take them (\<^verbatim>\<open>node.dataset.position\<close> is a string or
  undefined).
\<close>

record HotspotConfiguration =
  name :: string
  position :: "string option"
  normal :: "string option"

text \<open>
  A Hotspot object. Its position and normal are kept as the literals they were given as:
  parsing them is the Hotspot's own business and no claim depends on it. The overlay element
  of a hotspot is created with the object and is identified with its reference.
\<close>

record Hotspot =
  hs_name :: string
  hs_position :: "string option"
  hs_normal :: "string option"
  referenceCount :: int

text \<open>
  Modelled from the spec: \<^verbatim>\<open>three-components/Hotspot.ts\<close> is not among the sources. A new
  Hotspot is built from the declared name, position and normal and has reference count 1
  (the spec's data model: an integer at least 1 while the hotspot lives).
\<close>

definition new_Hotspot :: "HotspotConfiguration \<Rightarrow> Hotspot" where
  "new_Hotspot config =
     \<lparr>hs_name = name config, hs_position = position config, hs_normal = normal config,
      referenceCount = 1\<rparr>"

text \<open>
  Modelled from the spec: \<^verbatim>\<open>Hotspot.increment\<close> adds one to the reference count, when an
  additional declaration with the same name is added.
\<close>

definition increment :: "Hotspot \<Rightarrow> Hotspot" where
  "increment h = h\<lparr>referenceCount := referenceCount h + 1\<rparr>"

text \<open>
  Modelled from the spec: \<^verbatim>\<open>Hotspot.decrement\<close> takes one from the reference count and
  answers whether it reached zero.
\<close>

definition decrement :: "Hotspot \<Rightarrow> Hotspot \<times> bool" where
  "decrement h =
     (let h' = h\<lparr>referenceCount := referenceCount h - 1\<rparr> in (h', referenceCount h' = 0))"

text \<open>
  Modelled from the spec: \<^verbatim>\<open>Hotspot.updatePosition\<close> overwrites the position with the
  given value.
\<close>

definition updatePosition :: "string option \<Rightarrow> Hotspot \<Rightarrow> Hotspot" where
  "updatePosition p h = h\<lparr>hs_position := p\<rparr>"

text \<open>
  Modelled from the spec: \<^verbatim>\<open>Hotspot.updateNormal\<close> overwrites the normal with the given
  value.
\<close>

definition updateNormal :: "string option \<Rightarrow> Hotspot \<Rightarrow> Hotspot" where
  "updateNormal n h = h\<lparr>hs_normal := n\<rparr>"

subsection \<open>Scene, model and camera\<close>

text \<open>
  Hotspot objects live in a store and are named by references (natural numbers): the
  registry, the scene's model and the overlay container all hold the same object.
\<close>

type_synonym ref = nat

record Camera =
  cam_position :: Vector3

text \<open>What the scene's ray hit-test returns when the mesh is hit.\<close>

record Hit =
  hit_position :: Vector3
  hit_normal :: Vector3

text \<open>The model: its world transform and the hotspots attached to it.\<close>

record 'm Model =
  matrixWorld :: 'm
  hotspots :: "ref list"

text \<open>
  The scene. Its hit-test \<^verbatim>\<open>scene.positionAndNormalFromPoint\<close> is the scene's own and
  stays a parameter: a field holding the function.
\<close>

record 'm Scene =
  width :: real
  height :: real
  isDirty :: bool
  model :: "'m Model"
  camera :: Camera
  hitTest :: "Vector2 \<Rightarrow> Hit option"

definition getCamera :: "'m Scene \<Rightarrow> Camera" where
  "getCamera sc = camera sc"

text \<open>
  Modelled from the spec: \<^verbatim>\<open>Model.addHotspot\<close> attaches a hotspot to the model
  (\<^verbatim>\<open>three-components/Model.ts\<close> is not among the sources).
\<close>

definition model_addHotspot :: "ref \<Rightarrow> 'm Model \<Rightarrow> 'm Model" where
  "model_addHotspot r m = m\<lparr>hotspots := hotspots m @ [r]\<rparr>"

text \<open>
  Modelled from the spec: \<^verbatim>\<open>Model.removeHotspot\<close> detaches a hotspot from the model.
\<close>

definition model_removeHotspot :: "ref \<Rightarrow> 'm Model \<Rightarrow> 'm Model" where
  "model_removeHotspot r m = m\<lparr>hotspots := removeAll r (hotspots m)\<rparr>"

subsection \<open>The element's state\<close>

text \<open>Children of the overlay renderer's \<^verbatim>\<open>domElement\<close>.\<close>

datatype overlay_child = DefaultSlot | HotspotElement ref

text \<open>\<^verbatim>\<open>Node.appendChild\<close>: a child that is already there moves to the end.\<close>

definition appendChild :: "overlay_child \<Rightarrow> overlay_child list \<Rightarrow> overlay_child list" where
  "appendChild c cs = removeAll c cs @ [c]"

text \<open>
  Calls into the collaborators that only the log records: the model's recomputation of
  the hotspots for a camera position, and a render of the overlay with a scene and a camera.
\<close>

datatype 'm call = UpdateHotspots Vector3 | RenderOverlay "'m Scene" Camera

record 'm viewer =
  scene :: "'m Scene"
  hotspotMap :: "string \<rightharpoonup> ref"
  heap :: "ref \<Rightarrow> Hotspot"
  nextRef :: ref
  domElement :: "overlay_child list"
  calls :: "'m call list"
  needsRenderCalls :: nat

text \<open>
  The state after the constructor, for a given scene: an empty registry, and the overlay
  container holding the default slot.
\<close>

definition new_viewer :: "'m Scene \<Rightarrow> 'm viewer" where
  "new_viewer sc =
     \<lparr>scene = sc, hotspotMap = Map.empty,
      heap = (\<lambda>_. \<lparr>hs_name = [], hs_position = None, hs_normal = None, referenceCount = 0\<rparr>),
      nextRef = 0, domElement = [DefaultSlot], calls = [], needsRenderCalls = 0\<rparr>"

definition set_isDirty :: "bool \<Rightarrow> 'm viewer \<Rightarrow> 'm viewer" where
  "set_isDirty b v = v\<lparr>scene := (scene v)\<lparr>isDirty := b\<rparr>\<rparr>"

text \<open>
  Modelled from the spec: \<^verbatim>\<open>$needsRender\<close> of the base class (not among the sources) marks
  the scene dirty, requesting the next frame. The model also counts the requests.
\<close>

definition needsRender :: "'m viewer \<Rightarrow> 'm viewer" where
  "needsRender v = (set_isDirty True v)\<lparr>needsRenderCalls := Suc (needsRenderCalls v)\<rparr>"

subsection \<open>Child nodes\<close>

text \<open>
  A DOM node: an \<^verbatim>\<open>HTMLElement\<close> with its slot attribute and the two data attributes, or
  any other node (a text node, a comment, an SVG element).
\<close>

datatype node =
  HTMLElement string "string option" "string option"
  | OtherNode

text \<open>
  \<^verbatim>\<open>String.prototype.indexOf\<close>: the index of the first occurrence of the pattern, or
  \<open>-1\<close>.
\<close>

primrec indexOf_from :: "int \<Rightarrow> string \<Rightarrow> string \<Rightarrow> int" where
  "indexOf_from i pat [] = (if pat = [] then i else - 1)"
| "indexOf_from i pat (c # cs) =
     (if prefix pat (c # cs) then i else indexOf_from (i + 1) pat cs)"

definition indexOf :: "string \<Rightarrow> string \<Rightarrow> int" where
  "indexOf s pat = indexOf_from 0 pat s"

subsection \<open>The registry: \<^verbatim>\<open>$addHotspot\<close>, \<^verbatim>\<open>$removeHotspot\<close>, \<^verbatim>\<open>updateHotspot\<close>\<close>

fun addHotspot :: "node \<Rightarrow> 'm viewer \<Rightarrow> 'm viewer" where
  "addHotspot OtherNode v = v"
| "addHotspot (HTMLElement slot data_position data_normal) v =
     (if indexOf slot ''hotspot'' \<noteq> 0 then v
      else
        set_isDirty True
          (case hotspotMap v slot of
             Some r \<Rightarrow> v\<lparr>heap := (heap v)(r := increment (heap v r))\<rparr>
           | None \<Rightarrow>
               (let r = nextRef v;
                    hotspot = new_Hotspot
                      \<lparr>name = slot, position = data_position, normal = data_normal\<rparr>
                in v\<lparr>heap := (heap v)(r := hotspot),
                     nextRef := Suc r,
                     hotspotMap := (hotspotMap v)(slot \<mapsto> r),
                     scene := (scene v)\<lparr>model := model_addHotspot r (model (scene v))\<rparr>,
                     domElement := appendChild (HotspotElement r) (domElement v)\<rparr>)))"

fun removeHotspot :: "node \<Rightarrow> 'm viewer \<Rightarrow> 'm viewer" where
  "removeHotspot OtherNode v = v"
| "removeHotspot (HTMLElement slot data_position data_normal) v =
     (case hotspotMap v slot of
        None \<Rightarrow> v
      | Some r \<Rightarrow>
          (let (h', zero) = decrement (heap v r);
               v1 = v\<lparr>heap := (heap v)(r := h')\<rparr>;
               v2 = (if zero
                     then v1\<lparr>scene := (scene v1)\<lparr>model := model_removeHotspot r (model (scene v1))\<rparr>,
                             hotspotMap := (hotspotMap v1)(slot := None)\<rparr>
                     else v1)
           in set_isDirty True v2))"

text \<open>
  \<^verbatim>\<open>connectedCallback\<close>: after the base class's callback (a parameter), every child of
  the element is added; the children are the element's and are given. Starting and stopping
  the observer (also \<^verbatim>\<open>disconnectedCallback\<close>) and \<^verbatim>\<open>$onResize\<close> change nothing of
  the state modelled here.
\<close>

definition connectedCallback ::
  "('m viewer \<Rightarrow> 'm viewer) \<Rightarrow> node list \<Rightarrow> 'm viewer \<Rightarrow> 'm viewer" where
  "connectedCallback super_connectedCallback children v =
     fold addHotspot children (super_connectedCallback v)"

definition updateHotspot :: "HotspotConfiguration \<Rightarrow> 'm viewer \<Rightarrow> 'm viewer" where
  "updateHotspot config v =
     (case hotspotMap v (name config) of
        None \<Rightarrow> v
      | Some r \<Rightarrow>
          v\<lparr>heap := (heap v)(r := updateNormal (normal config)
                                     (updatePosition (position config) (heap v r)))\<rparr>)"

subsection \<open>Picking: \<^verbatim>\<open>positionAndNormalFromPoint\<close>\<close>

text \<open>The plain vector that \<^verbatim>\<open>toVector3D\<close> returns, and the result of a pick.\<close>

record Vector3D =
  x3D :: real
  y3D :: real
  z3D :: real

record PickResult =
  pick_position :: Vector3D
  pick_normal :: Vector3D

text \<open>
  Modelled from the spec: \<^verbatim>\<open>toVector3D\<close> of the base module (not among the sources)
  returns the vector as a plain 3D vector value.
\<close>

definition toVector3D :: "Vector3 \<Rightarrow> Vector3D" where
  "toVector3D p = \<lparr>x3D = v3x p, y3D = v3y p, z3D = v3z p\<rparr>"

text \<open>
  The result \<open>None\<close> is the source's \<^verbatim>\<open>null\<close>. The source has no \<^verbatim>\<open>throw\<close> and calls
  nothing on a value that may be null, so there is no error branch. The module-level
  scratch objects \<^verbatim>\<open>pixelPosition\<close> and \<^verbatim>\<open>worldToModel\<close> are written before they are
  read on every call and are local values here; \<^verbatim>\<open>applyMatrix4\<close> overwrites the hit's
  position in place, and the hit's normal is another vector. A division by a zero width or height gives
  an infinity or NaN in JavaScript and \<open>0\<close> here: the theorems on the coordinates assume
  positive dimensions.
\<close>

definition positionAndNormalFromPoint ::
  "'m Matrix4_ops \<Rightarrow> 'm viewer \<Rightarrow> real \<Rightarrow> real \<Rightarrow> PickResult option" where
  "positionAndNormalFromPoint ops v pixelX pixelY =
     (let sc = scene v;
          p = subScalar 1 (multiplyScalar 2 (set_v2 (pixelX / width sc) (pixelY / height sc)));
          pixelPosition = p\<lparr>v2y := v2y p * (- 1)\<rparr>
      in case hitTest sc pixelPosition of
           None \<Rightarrow> None
         | Some hit \<Rightarrow>
             (let worldToModel = getInverse ops (matrixWorld (model sc));
                  position = toVector3D (applyMatrix4 ops (hit_position hit) worldToModel);
                  normal = toVector3D (hit_normal hit)
              in Some \<lparr>pick_position = position, pick_normal = normal\<rparr>))"

subsection \<open>The frame: \<^verbatim>\<open>$tick\<close>\<close>

text \<open>
  \<^verbatim>\<open>super[$tick](time, delta)\<close> runs first and is a parameter: the base class and the other
  mixins under it are not among the sources. The dirty flag is read after it.
\<close>

definition tick ::
  "(real \<Rightarrow> real \<Rightarrow> 'm viewer \<Rightarrow> 'm viewer) \<Rightarrow> real \<Rightarrow> real \<Rightarrow> 'm viewer \<Rightarrow> 'm viewer" where
  "tick super_tick time delta v0 =
     (let v = super_tick time delta v0;
          sc = scene v;
          cam = getCamera sc
      in if isDirty sc
         then v\<lparr>calls := calls v @ [UpdateHotspots (cam_position cam), RenderOverlay sc cam]\<rparr>
         else v)"

text \<open>
  Modelled from the spec: the dirty flag is cleared by the scene's side once the frame's
  update has been performed (the renderer is not among the sources). A frame is the tick
  followed by that clearing.
\<close>

definition frame ::
  "(real \<Rightarrow> real \<Rightarrow> 'm viewer \<Rightarrow> 'm viewer) \<Rightarrow> real \<times> real \<Rightarrow> 'm viewer \<Rightarrow> 'm viewer" where
  "frame super_tick td v = set_isDirty False (tick super_tick (fst td) (snd td) v)"

fun is_RenderOverlay :: "'m call \<Rightarrow> bool" where
  "is_RenderOverlay (RenderOverlay sc cam) = True"
| "is_RenderOverlay (UpdateHotspots p) = False"

definition overlay_renders :: "'m viewer \<Rightarrow> nat" where
  "overlay_renders v = length (filter is_RenderOverlay (calls v))"

text \<open>
  What the frame theorem asks of the base tick: it leaves the dirty flag and the log of
  overlay calls as they are.
\<close>

definition keeps_flag_and_log ::
  "(real \<Rightarrow> real \<Rightarrow> 'm viewer \<Rightarrow> 'm viewer) \<Rightarrow> bool" where
  "keeps_flag_and_log super_tick \<longleftrightarrow>
     (\<forall>time delta v. isDirty (scene (super_tick time delta v)) = isDirty (scene v) \<and>
        calls (super_tick time delta v) = calls v)"

subsection \<open>The mutation callback\<close>

text \<open>
  An entry of the array the observer delivers: a \<^verbatim>\<open>MutationRecord\<close> with its type, or
  (under ShadyDOM) an object that only has the two node lists.
\<close>

datatype mutation =
  MutationRecord string "node list" "node list"
  | ShadyRecord "node list" "node list"

fun addedNodes :: "mutation \<Rightarrow> node list" where
  "addedNodes (MutationRecord ty added removed) = added"
| "addedNodes (ShadyRecord added removed) = added"

fun removedNodes :: "mutation \<Rightarrow> node list" where
  "removedNodes (MutationRecord ty added removed) = removed"
| "removedNodes (ShadyRecord added removed) = removed"

text \<open>The guard: not a \<^verbatim>\<open>MutationRecord\<close>, or one of type \<^verbatim>\<open>childList\<close>.\<close>

fun is_childList :: "mutation \<Rightarrow> bool" where
  "is_childList (MutationRecord ty added removed) = (ty = ''childList'')"
| "is_childList (ShadyRecord added removed) = True"

definition processMutation :: "mutation \<Rightarrow> 'm viewer \<Rightarrow> 'm viewer" where
  "processMutation mutation v =
     (if is_childList mutation
      then needsRender
             (fold removeHotspot (removedNodes mutation)
               (fold addHotspot (addedNodes mutation) v))
      else v)"

definition mutationCallback :: "mutation list \<Rightarrow> 'm viewer \<Rightarrow> 'm viewer" where
  "mutationCallback mutations v = fold processMutation mutations v"

text \<open>
  Follows the claim's words, for comparison with \<open>mutationCallback\<close>: every added node of
  the delivered batch is processed, then every removed node, then the scene is marked dirty
  once.
\<close>

definition adds_then_removes :: "mutation list \<Rightarrow> 'm viewer \<Rightarrow> 'm viewer" where
  "adds_then_removes mutations v =
     needsRender
       (fold removeHotspot (concat (map removedNodes mutations))
         (fold addHotspot (concat (map addedNodes mutations)) v))"

subsection \<open>Sequences of notifications\<close>

datatype notification = Added node | Removed node

fun notify :: "notification \<Rightarrow> 'm viewer \<Rightarrow> 'm viewer" where
  "notify (Added n) v = addHotspot n v"
| "notify (Removed n) v = removeHotspot n v"

definition notify_all :: "notification list \<Rightarrow> 'm viewer \<Rightarrow> 'm viewer" where
  "notify_all ns v = fold notify ns v"

text \<open>The node a notification is about, the slot of a node, and the counts of adds and removes.\<close>

fun node_of :: "notification \<Rightarrow> node" where
  "node_of (Added n) = n"
| "node_of (Removed n) = n"

fun slot_of :: "node \<Rightarrow> string option" where
  "slot_of (HTMLElement slot data_position data_normal) = Some slot"
| "slot_of OtherNode = None"

fun is_Added :: "notification \<Rightarrow> bool" where
  "is_Added (Added n) = True"
| "is_Added (Removed n) = False"

definition adds :: "notification list \<Rightarrow> nat" where
  "adds ns = length (filter is_Added ns)"

definition removes :: "notification list \<Rightarrow> nat" where
  "removes ns = length (filter (\<lambda>n. \<not> is_Added n) ns)"

text \<open>The reference count the registry holds for a name: 0 when it has no Hotspot for it.\<close>

definition count_of :: "'m viewer \<Rightarrow> string \<Rightarrow> int" where
  "count_of v nm = (case hotspotMap v nm of None \<Rightarrow> 0 | Some r \<Rightarrow> referenceCount (heap v r))"

text \<open>The hotspots with a given name that are attached to the model.\<close>

definition attached :: "'m viewer \<Rightarrow> string \<Rightarrow> ref list" where
  "attached v nm = filter (\<lambda>r. hs_name (heap v r) = nm) (hotspots (model (scene v)))"

text \<open>
  Follows the spec's words: the net count of adds and removes, clamped at 0 by the registry
  at each step (a remove that finds no Hotspot is ignored).
\<close>

fun clamped_count :: "int \<Rightarrow> notification list \<Rightarrow> int" where
  "clamped_count c [] = c"
| "clamped_count c (Added n # ns) = clamped_count (c + 1) ns"
| "clamped_count c (Removed n # ns) = clamped_count (max 0 (c - 1)) ns"

text \<open>Every remove of the sequence arrives while the count is positive.\<close>

fun all_matched :: "int \<Rightarrow> notification list \<Rightarrow> bool" where
  "all_matched c [] = True"
| "all_matched c (Added n # ns) = all_matched (c + 1) ns"
| "all_matched c (Removed n # ns) = (0 < c \<and> all_matched (c - 1) ns)"

text \<open>The count is positive before and after every notification of the sequence.\<close>

fun stays_registered :: "int \<Rightarrow> notification list \<Rightarrow> bool" where
  "stays_registered c [] = (0 < c)"
| "stays_registered c (Added n # ns) = (0 < c \<and> stays_registered (c + 1) ns)"
| "stays_registered c (Removed n # ns) = (0 < c \<and> stays_registered (c - 1) ns)"

text \<open>
  Follows the claim's words, for comparison with \<open>count_of\<close>: the number of adds minus the
  number of removes, not below 0.
\<close>

definition adds_minus_removes :: "notification list \<Rightarrow> int" where
  "adds_minus_removes ns = max 0 (int (adds ns) - int (removes ns))"

subsection \<open>Reachable states\<close>

text \<open>
  What the constructor establishes and every method keeps: a registered Hotspot carries
  its key as its name, the key starts with \<^verbatim>\<open>hotspot\<close>, its count is at least 1 and its
  reference has been allocated; the model holds exactly the registered hotspots, each once;
  and the overlay container only holds elements of allocated hotspots.
\<close>

definition viewer_ok :: "'m viewer \<Rightarrow> bool" where
  "viewer_ok v \<longleftrightarrow>
     (\<forall>nm r. hotspotMap v nm = Some r \<longrightarrow>
        r < nextRef v \<and> hs_name (heap v r) = nm \<and> 1 \<le> referenceCount (heap v r) \<and>
        prefix ''hotspot'' nm) \<and>
     set (hotspots (model (scene v))) = ran (hotspotMap v) \<and>
     distinct (hotspots (model (scene v))) \<and>
     (\<forall>r. HotspotElement r \<in> set (domElement v) \<longrightarrow> r < nextRef v)"

subsection \<open>Concrete inputs\<close>

text \<open>
  A scene 800 by 600 pixels whose hit-test finds the mesh at the centre of the viewport
  only, with a one-dimensional stand-in for the matrices (a scale factor), and nodes
  declaring hotspots.
\<close>

definition scene0 :: "real Scene" where
  "scene0 =
     \<lparr>width = 800, height = 600, isDirty = False,
      model = \<lparr>matrixWorld = 2, hotspots = []\<rparr>,
      camera = \<lparr>cam_position = \<lparr>v3x = 0, v3y = 0, v3z = 5\<rparr>\<rparr>,
      hitTest = (\<lambda>p. if v2x p = 0 \<and> v2y p = 0
                       then Some \<lparr>hit_position = \<lparr>v3x = 2, v3y = 4, v3z = 6\<rparr>,
                                  hit_normal = \<lparr>v3x = 0, v3y = 0, v3z = 1\<rparr>\<rparr>
                       else None)\<rparr>"

text \<open>A scene whose hit-test always hits and answers the coordinate it was asked at, with the model at the origin, unscaled.\<close>

definition scene_echo :: "real Scene" where
  "scene_echo =
     \<lparr>width = 800, height = 600, isDirty = False,
      model = \<lparr>matrixWorld = 1, hotspots = []\<rparr>,
      camera = \<lparr>cam_position = \<lparr>v3x = 0, v3y = 0, v3z = 5\<rparr>\<rparr>,
      hitTest = (\<lambda>p. Some \<lparr>hit_position = \<lparr>v3x = v2x p, v3y = v2y p, v3z = 0\<rparr>,
                             hit_normal = \<lparr>v3x = 0, v3y = 0, v3z = 1\<rparr>\<rparr>)\<rparr>"

definition scale_ops :: "real Matrix4_ops" where
  "scale_ops =
     \<lparr>getInverse = (\<lambda>m. 1 / m),
      applyMatrix4 = (\<lambda>p m. \<lparr>v3x = v3x p * m, v3y = v3y p * m, v3z = v3z p * m\<rparr>)\<rparr>"

definition node1 :: node where
  "node1 = HTMLElement ''hotspot-1'' (Some ''0 0 0'') (Some ''0 1 0'')"

definition node2 :: node where
  "node2 = HTMLElement ''hotspot-1'' (Some ''1 1 1'') (Some ''1 0 0'')"

definition config1 :: HotspotConfiguration where
  "config1 = \<lparr>name = ''hotspot-1'', position = Some ''1 2 3'', normal = Some ''0 1 0''\<rparr>"

definition config9 :: HotspotConfiguration where
  "config9 = \<lparr>name = ''hotspot-9'', position = Some ''1 2 3'', normal = Some ''0 1 0''\<rparr>"

definition batch0 :: "mutation list" where
  "batch0 = [MutationRecord ''childList'' [] [node1], MutationRecord ''childList'' [node2] []]"

definition record1 :: mutation where
  "record1 = MutationRecord ''childList'' [node1, node2] [node1]"

definition record2 :: mutation where
  "record2 = MutationRecord ''attributes'' [] []"

section \<open>Shared lemmas\<close>

subsection \<open>\<^verbatim>\<open>indexOf\<close> and the prefix test\<close>

lemma indexOf_from_range: "0 \<le> i \<Longrightarrow> indexOf_from i pat s = - 1 \<or> i \<le> indexOf_from i pat s"
proof (induction s arbitrary: i)
  case Nil
  then show ?case by simp
next
  case (Cons c s)
  from Cons.IH [of "i + 1"] Cons.prems show ?case by auto
qed

lemma indexOf_from_pos: "0 < i \<Longrightarrow> indexOf_from i pat s \<noteq> 0"
  using indexOf_from_range [of i pat s] by auto

lemma indexOf_zero_iff: "indexOf s pat = 0 \<longleftrightarrow> prefix pat s"
  by (cases s) (auto simp: indexOf_def indexOf_from_pos)

subsection \<open>The invariant of reachable states\<close>

lemma viewer_ok_new_viewer: "hotspots (model sc) = [] \<Longrightarrow> viewer_ok (new_viewer sc)"
  by (simp add: viewer_ok_def new_viewer_def)

lemma ok_registered:
  "viewer_ok v \<Longrightarrow> hotspotMap v nm = Some r \<Longrightarrow>
     r < nextRef v \<and> hs_name (heap v r) = nm \<and> 1 \<le> referenceCount (heap v r) \<and>
     prefix ''hotspot'' nm"
  unfolding viewer_ok_def by blast

lemma ok_model: "viewer_ok v \<Longrightarrow> set (hotspots (model (scene v))) = ran (hotspotMap v) \<and> distinct (hotspots (model (scene v)))"
  unfolding viewer_ok_def by blast

lemma ok_overlay: "viewer_ok v \<Longrightarrow> HotspotElement r \<in> set (domElement v) \<Longrightarrow> r < nextRef v"
  unfolding viewer_ok_def by blast

lemma ok_fresh: "viewer_ok v \<Longrightarrow> hotspotMap v nm \<noteq> Some (nextRef v)"
  using ok_registered [of v nm "nextRef v"] by auto

lemma ok_inj: "viewer_ok v \<Longrightarrow> hotspotMap v nm = Some r \<Longrightarrow> hotspotMap v nm' = Some r \<Longrightarrow> nm = nm'"
  using ok_registered [of v nm r] ok_registered [of v nm' r] by auto

text \<open>The cases of \<^verbatim>\<open>$addHotspot\<close> and \<^verbatim>\<open>$removeHotspot\<close> on an element.\<close>

lemma addHotspot_ineligible:
  "\<not> prefix ''hotspot'' slot \<Longrightarrow> addHotspot (HTMLElement slot p q) v = v"
  by (simp add: indexOf_zero_iff)

lemma addHotspot_existing:
  "prefix ''hotspot'' slot \<Longrightarrow> hotspotMap v slot = Some r \<Longrightarrow>
   addHotspot (HTMLElement slot p q) v =
     v\<lparr>heap := (heap v)(r := (heap v r)\<lparr>referenceCount := referenceCount (heap v r) + 1\<rparr>),
       scene := (scene v)\<lparr>isDirty := True\<rparr>\<rparr>"
  by (simp add: indexOf_zero_iff set_isDirty_def increment_def)

lemma addHotspot_new:
  "prefix ''hotspot'' slot \<Longrightarrow> hotspotMap v slot = None \<Longrightarrow>
   addHotspot (HTMLElement slot p q) v =
     v\<lparr>heap := (heap v)(nextRef v :=
              \<lparr>hs_name = slot, hs_position = p, hs_normal = q, referenceCount = 1\<rparr>),
       nextRef := Suc (nextRef v),
       hotspotMap := (hotspotMap v)(slot \<mapsto> nextRef v),
       scene := (scene v)\<lparr>model := (model (scene v))\<lparr>hotspots := hotspots (model (scene v)) @ [nextRef v]\<rparr>,
                         isDirty := True\<rparr>,
       domElement := removeAll (HotspotElement (nextRef v)) (domElement v) @ [HotspotElement (nextRef v)]\<rparr>"
  by (simp add: indexOf_zero_iff set_isDirty_def new_Hotspot_def model_addHotspot_def
      appendChild_def Let_def)

lemma removeHotspot_absent:
  "hotspotMap v slot = None \<Longrightarrow> removeHotspot (HTMLElement slot p q) v = v"
  by simp

lemma removeHotspot_shared:
  "hotspotMap v slot = Some r \<Longrightarrow> referenceCount (heap v r) \<noteq> 1 \<Longrightarrow>
   removeHotspot (HTMLElement slot p q) v =
     v\<lparr>heap := (heap v)(r := (heap v r)\<lparr>referenceCount := referenceCount (heap v r) - 1\<rparr>),
       scene := (scene v)\<lparr>isDirty := True\<rparr>\<rparr>"
  by (simp add: set_isDirty_def decrement_def Let_def)

lemma removeHotspot_last:
  "hotspotMap v slot = Some r \<Longrightarrow> referenceCount (heap v r) = 1 \<Longrightarrow>
   removeHotspot (HTMLElement slot p q) v =
     v\<lparr>heap := (heap v)(r := (heap v r)\<lparr>referenceCount := 0\<rparr>),
       scene := (scene v)\<lparr>model := (model (scene v))\<lparr>hotspots := removeAll r (hotspots (model (scene v)))\<rparr>,
                         isDirty := True\<rparr>,
       hotspotMap := (hotspotMap v)(slot := None)\<rparr>"
  by (simp add: set_isDirty_def decrement_def Let_def model_removeHotspot_def)

lemma ran_remove_inj:
  assumes k: "m k = Some r" and inj: "\<And>k'. m k' = Some r \<Longrightarrow> k' = k"
  shows "ran (m(k := None)) = ran m - {r}"
proof (rule set_eqI)
  fix y
  have "y \<in> ran (m(k := None)) \<longleftrightarrow> (\<exists>k'. k' \<noteq> k \<and> m k' = Some y)"
    by (simp add: ran_def) blast
  also have "\<dots> \<longleftrightarrow> (\<exists>k'. m k' = Some y) \<and> y \<noteq> r"
    using k inj by (metis option.inject)
  also have "\<dots> \<longleftrightarrow> y \<in> ran m - {r}"
    by (simp add: ran_def)
  finally show "y \<in> ran (m(k := None)) \<longleftrightarrow> y \<in> ran m - {r}" .
qed

lemma viewer_okI:
  assumes "\<And>nm r. hotspotMap v nm = Some r \<Longrightarrow> r < nextRef v"
    and "\<And>nm r. hotspotMap v nm = Some r \<Longrightarrow> hs_name (heap v r) = nm"
    and "\<And>nm r. hotspotMap v nm = Some r \<Longrightarrow> 1 \<le> referenceCount (heap v r)"
    and "\<And>nm r. hotspotMap v nm = Some r \<Longrightarrow> prefix ''hotspot'' nm"
    and "set (hotspots (model (scene v))) = ran (hotspotMap v)"
    and "distinct (hotspots (model (scene v)))"
    and "\<And>r. HotspotElement r \<in> set (domElement v) \<Longrightarrow> r < nextRef v"
  shows "viewer_ok v"
  unfolding viewer_ok_def using assms by blast

lemma viewer_ok_addHotspot: "viewer_ok v \<Longrightarrow> viewer_ok (addHotspot n v)"
proof (cases n)
  case OtherNode
  then show "viewer_ok v \<Longrightarrow> ?thesis" by simp
next
  case (HTMLElement slot p q)
  assume w: "viewer_ok v"
  note reg = ok_registered [OF w]
  define v' where "v' = addHotspot n v"
  show ?thesis
  proof (cases "prefix ''hotspot'' slot")
    case False
    with HTMLElement w show ?thesis by (simp add: indexOf_zero_iff)
  next
    case pre: True
    show ?thesis
    proof (cases "hotspotMap v slot")
      case (Some r)
      have m: "hotspotMap v' = hotspotMap v" and x: "nextRef v' = nextRef v"
        and d: "domElement v' = domElement v"
        and a: "hotspots (model (scene v')) = hotspots (model (scene v))"
        and h: "heap v' = (heap v)(r := (heap v r)\<lparr>referenceCount := referenceCount (heap v r) + 1\<rparr>)"
        unfolding v'_def HTMLElement addHotspot_existing [OF pre Some] by simp_all
      have "viewer_ok v'"
      proof (rule viewer_okI)
        fix nm r' assume "hotspotMap v' nm = Some r'"
        then have "hotspotMap v nm = Some r'" by (simp add: m)
        from reg [OF this]
        show "r' < nextRef v'" "hs_name (heap v' r') = nm" "1 \<le> referenceCount (heap v' r')"
          "prefix ''hotspot'' nm"
          by (auto simp: x h)
      next
        show "set (hotspots (model (scene v'))) = ran (hotspotMap v')"
          "distinct (hotspots (model (scene v')))"
          using ok_model [OF w] by (simp_all add: a m)
      next
        fix r' assume "HotspotElement r' \<in> set (domElement v')"
        then show "r' < nextRef v'" using ok_overlay [OF w, of r'] by (simp add: d x)
      qed
      then show ?thesis by (simp add: v'_def)
    next
      case None
      have m: "hotspotMap v' = (hotspotMap v)(slot \<mapsto> nextRef v)" and x: "nextRef v' = Suc (nextRef v)"
        and d: "domElement v' = removeAll (HotspotElement (nextRef v)) (domElement v) @ [HotspotElement (nextRef v)]"
        and a: "hotspots (model (scene v')) = hotspots (model (scene v)) @ [nextRef v]"
        and h: "heap v' = (heap v)(nextRef v :=
              \<lparr>hs_name = slot, hs_position = p, hs_normal = q, referenceCount = 1\<rparr>)"
        unfolding v'_def HTMLElement addHotspot_new [OF pre None] by simp_all
      have fresh: "nextRef v \<notin> ran (hotspotMap v)"
        using ok_fresh [OF w] by (auto simp: ran_def)
      have ran_eq: "ran (hotspotMap v') = insert (nextRef v) (ran (hotspotMap v))"
        unfolding m using None by simp
      have "viewer_ok v'"
      proof (rule viewer_okI)
        fix nm r' assume *: "hotspotMap v' nm = Some r'"
        show "r' < nextRef v'" "hs_name (heap v' r') = nm" "1 \<le> referenceCount (heap v' r')"
          "prefix ''hotspot'' nm"
          using * reg [of nm r'] pre by (auto simp: m x h split: if_splits)
      next
        show "set (hotspots (model (scene v'))) = ran (hotspotMap v')"
          "distinct (hotspots (model (scene v')))"
          using ok_model [OF w] fresh by (simp_all add: a ran_eq)
      next
        fix r' assume "HotspotElement r' \<in> set (domElement v')"
        then show "r' < nextRef v'" using ok_overlay [OF w, of r'] by (auto simp: d x)
      qed
      then show ?thesis by (simp add: v'_def)
    qed
  qed
qed

lemma viewer_ok_removeHotspot: "viewer_ok v \<Longrightarrow> viewer_ok (removeHotspot n v)"
proof (cases n)
  case OtherNode
  then show "viewer_ok v \<Longrightarrow> ?thesis" by simp
next
  case (HTMLElement slot p q)
  assume w: "viewer_ok v"
  note reg = ok_registered [OF w]
  define v' where "v' = removeHotspot n v"
  show ?thesis
  proof (cases "hotspotMap v slot")
    case None
    with HTMLElement w show ?thesis by simp
  next
    case (Some r)
    show ?thesis
    proof (cases "referenceCount (heap v r) = 1")
      case False
      from reg [OF Some] False have two: "2 \<le> referenceCount (heap v r)" by simp
      have m: "hotspotMap v' = hotspotMap v" and x: "nextRef v' = nextRef v"
        and d: "domElement v' = domElement v"
        and a: "hotspots (model (scene v')) = hotspots (model (scene v))"
        and h: "heap v' = (heap v)(r := (heap v r)\<lparr>referenceCount := referenceCount (heap v r) - 1\<rparr>)"
        unfolding v'_def HTMLElement removeHotspot_shared [OF Some False] by simp_all
      have "viewer_ok v'"
      proof (rule viewer_okI)
        fix nm r' assume "hotspotMap v' nm = Some r'"
        then have "hotspotMap v nm = Some r'" by (simp add: m)
        from reg [OF this] two
        show "r' < nextRef v'" "hs_name (heap v' r') = nm" "1 \<le> referenceCount (heap v' r')"
          "prefix ''hotspot'' nm"
          by (auto simp: x h)
      next
        show "set (hotspots (model (scene v'))) = ran (hotspotMap v')"
          "distinct (hotspots (model (scene v')))"
          using ok_model [OF w] by (simp_all add: a m)
      next
        fix r' assume "HotspotElement r' \<in> set (domElement v')"
        then show "r' < nextRef v'" using ok_overlay [OF w, of r'] by (simp add: d x)
      qed
      then show ?thesis by (simp add: v'_def)
    next
      case True
      have m: "hotspotMap v' = (hotspotMap v)(slot := None)" and x: "nextRef v' = nextRef v"
        and d: "domElement v' = domElement v"
        and a: "hotspots (model (scene v')) = removeAll r (hotspots (model (scene v)))"
        and h: "heap v' = (heap v)(r := (heap v r)\<lparr>referenceCount := 0\<rparr>)"
        unfolding v'_def HTMLElement removeHotspot_last [OF Some True] by simp_all
      have ran_eq: "ran (hotspotMap v') = ran (hotspotMap v) - {r}"
        unfolding m
      proof (rule ran_remove_inj [where m = "hotspotMap v" and k = slot and r = r])
        show "hotspotMap v slot = Some r" by (rule Some)
        show "k' = slot" if "hotspotMap v k' = Some r" for k'
          using that by (rule ok_inj [OF w _ Some])
      qed
      have "viewer_ok v'"
      proof (rule viewer_okI)
        fix nm r' assume *: "hotspotMap v' nm = Some r'"
        then have **: "hotspotMap v nm = Some r'" and ne: "nm \<noteq> slot"
          by (auto simp: m split: if_splits)
        from ok_inj [OF w Some, of nm] ** ne have "r' \<noteq> r" by auto
        with reg [OF **]
        show "r' < nextRef v'" "hs_name (heap v' r') = nm" "1 \<le> referenceCount (heap v' r')"
          "prefix ''hotspot'' nm"
          by (auto simp: x h)
      next
        show "set (hotspots (model (scene v'))) = ran (hotspotMap v')"
          "distinct (hotspots (model (scene v')))"
          using ok_model [OF w] by (simp_all add: a ran_eq distinct_removeAll)
      next
        fix r' assume "HotspotElement r' \<in> set (domElement v')"
        then show "r' < nextRef v'" using ok_overlay [OF w, of r'] by (simp add: d x)
      qed
      then show ?thesis by (simp add: v'_def)
    qed
  qed
qed

lemma viewer_ok_updateHotspot: "viewer_ok v \<Longrightarrow> viewer_ok (updateHotspot config v)"
  unfolding viewer_ok_def updateHotspot_def updatePosition_def updateNormal_def
  by (auto split: option.splits)

lemma ok_overlay_fresh: "viewer_ok v \<Longrightarrow> removeAll (HotspotElement (nextRef v)) (domElement v) = domElement v"
proof -
  assume "viewer_ok v"
  then have "HotspotElement (nextRef v) \<notin> set (domElement v)"
    using ok_overlay [of v "nextRef v"] by auto
  then show ?thesis by (rule removeAll_id)
qed

lemma ok_unregistered:
  "viewer_ok v \<Longrightarrow> \<not> prefix ''hotspot'' slot \<Longrightarrow> hotspotMap v slot = None"
  using ok_registered [of v slot] by (cases "hotspotMap v slot") auto

lemma ok_model_fresh: "viewer_ok v \<Longrightarrow> nextRef v \<notin> set (hotspots (model (scene v)))"
  using ok_model [of v] ok_fresh [of v] by (auto simp: ran_def)

subsection \<open>Sequences of notifications and the count of a name\<close>

lemma viewer_ok_notify: "viewer_ok v \<Longrightarrow> viewer_ok (notify n v)"
  by (cases n) (simp_all add: viewer_ok_addHotspot viewer_ok_removeHotspot
      del: addHotspot.simps removeHotspot.simps)

lemma viewer_ok_notify_all: "viewer_ok v \<Longrightarrow> viewer_ok (notify_all ns v)"
  unfolding notify_all_def
  by (induction ns arbitrary: v) (simp_all add: viewer_ok_notify)

lemma count_of_nonneg: "viewer_ok v \<Longrightarrow> 0 \<le> count_of v nm"
  using ok_registered [of v nm] by (auto simp: count_of_def split: option.split)

lemma count_of_zero_iff: "viewer_ok v \<Longrightarrow> count_of v nm = 0 \<longleftrightarrow> hotspotMap v nm = None"
  using ok_registered [of v nm] by (auto simp: count_of_def split: option.split)

lemma count_of_add:
  "prefix ''hotspot'' nm \<Longrightarrow> viewer_ok v \<Longrightarrow>
   count_of (addHotspot (HTMLElement nm p q) v) nm = count_of v nm + 1"
proof (cases "hotspotMap v nm")
  case None
  assume "prefix ''hotspot'' nm"
  from addHotspot_new [OF this None, of p q] None show ?thesis
    by (simp add: count_of_def)
next
  case (Some r)
  assume "prefix ''hotspot'' nm"
  from addHotspot_existing [OF this Some, of p q] Some show ?thesis
    by (simp add: count_of_def)
qed

lemma count_of_remove:
  "viewer_ok v \<Longrightarrow>
   count_of (removeHotspot (HTMLElement nm p q) v) nm = max 0 (count_of v nm - 1)"
proof (cases "hotspotMap v nm")
  case None
  then show ?thesis by (simp add: count_of_def)
next
  case (Some r)
  assume ok: "viewer_ok v"
  from ok_registered [OF ok Some] have pos: "1 \<le> referenceCount (heap v r)" by simp
  show ?thesis
  proof (cases "referenceCount (heap v r) = 1")
    case True
    from removeHotspot_last [OF Some True, of p q] Some True show ?thesis
      by (simp add: count_of_def)
  next
    case False
    from removeHotspot_shared [OF Some False, of p q] Some False pos show ?thesis
      by (simp add: count_of_def)
  qed
qed

lemma registered_add:
  "prefix ''hotspot'' nm \<Longrightarrow> hotspotMap v nm = Some r \<Longrightarrow>
   hotspotMap (addHotspot (HTMLElement nm p q) v) nm = Some r"
  using addHotspot_existing [of nm v r p q] by (simp del: addHotspot.simps)

lemma registered_remove:
  "hotspotMap v nm = Some r \<Longrightarrow> referenceCount (heap v r) \<noteq> 1 \<Longrightarrow>
   hotspotMap (removeHotspot (HTMLElement nm p q) v) nm = Some r"
  using removeHotspot_shared [of v nm r p q] by (simp del: removeHotspot.simps)

lemma filter_single:
  "distinct xs \<Longrightarrow> r \<in> set xs \<Longrightarrow> (\<And>x. x \<in> set xs \<Longrightarrow> P x \<longleftrightarrow> x = r) \<Longrightarrow> filter P xs = [r]"
proof (induction xs)
  case Nil
  then show ?case by simp
next
  case (Cons a xs)
  show ?case
  proof (cases "a = r")
    case True
    with Cons.prems have "\<And>x. x \<in> set xs \<Longrightarrow> \<not> P x" by auto
    then have "filter P xs = []" by (simp add: filter_empty_conv)
    with True Cons.prems show ?thesis by simp
  next
    case False
    with Cons.prems have "\<not> P a" and "r \<in> set xs" and "distinct xs" by auto
    moreover have "filter P xs = [r]"
      using Cons.IH Cons.prems \<open>r \<in> set xs\<close> by auto
    ultimately show ?thesis by simp
  qed
qed

lemma attached_registered:
  "viewer_ok v \<Longrightarrow>
   attached v nm = (case hotspotMap v nm of None \<Rightarrow> [] | Some r \<Rightarrow> [r])"
proof (cases "hotspotMap v nm")
  case None
  assume ok: "viewer_ok v"
  have "\<not> (hs_name (heap v x) = nm)" if "x \<in> set (hotspots (model (scene v)))" for x
  proof -
    from that ok_model [OF ok] obtain k where k: "hotspotMap v k = Some x"
      by (auto simp: ran_def)
    from ok_registered [OF ok k] None k show ?thesis by auto
  qed
  then have "attached v nm = []" by (simp add: attached_def filter_empty_conv)
  with None show ?thesis by simp
next
  case (Some r)
  assume ok: "viewer_ok v"
  have "filter (\<lambda>x. hs_name (heap v x) = nm) (hotspots (model (scene v))) = [r]"
  proof (rule filter_single)
    show "distinct (hotspots (model (scene v)))" using ok_model [OF ok] by simp
    show "r \<in> set (hotspots (model (scene v)))"
      using ok_model [OF ok] Some by (auto simp: ran_def)
    fix x assume "x \<in> set (hotspots (model (scene v)))"
    with ok_model [OF ok] obtain k where k: "hotspotMap v k = Some x"
      by (auto simp: ran_def)
    from ok_registered [OF ok k] have nx: "hs_name (heap v x) = k" by simp
    from ok_registered [OF ok Some] have nr: "hs_name (heap v r) = nm" by simp
    show "hs_name (heap v x) = nm \<longleftrightarrow> x = r"
    proof
      assume "hs_name (heap v x) = nm"
      with nx have "k = nm" by simp
      with k Some show "x = r" by simp
    next
      assume "x = r"
      with nr show "hs_name (heap v x) = nm" by simp
    qed
  qed
  with Some show ?thesis by (simp add: attached_def)
qed

lemma slot_of_Some: "slot_of n = Some nm \<Longrightarrow> \<exists>p q. n = HTMLElement nm p q"
  by (cases n) simp_all

lemma count_of_notify:
  assumes "viewer_ok v" and "prefix ''hotspot'' nm" and "slot_of (node_of n) = Some nm"
  shows "count_of (notify n v) nm = clamped_count (count_of v nm) [n]"
proof (cases n)
  case (Added x)
  with assms(3) obtain p q where "x = HTMLElement nm p q" using slot_of_Some by fastforce
  with Added assms(1,2) show ?thesis
    by (simp add: count_of_add del: addHotspot.simps)
next
  case (Removed x)
  with assms(3) obtain p q where "x = HTMLElement nm p q" using slot_of_Some by fastforce
  with Removed assms(1) show ?thesis
    by (simp add: count_of_remove del: removeHotspot.simps)
qed

lemma clamped_count_Cons: "clamped_count c (n # ns) = clamped_count (clamped_count c [n]) ns"
  by (cases n) simp_all

lemma count_of_notify_all:
  assumes "prefix ''hotspot'' nm"
  shows "viewer_ok v \<Longrightarrow> \<forall>n\<in>set ns. slot_of (node_of n) = Some nm \<Longrightarrow>
    count_of (notify_all ns v) nm = clamped_count (count_of v nm) ns"
proof (induction ns arbitrary: v)
  case Nil
  show ?case by (simp add: notify_all_def)
next
  case (Cons n ns)
  have ok': "viewer_ok (notify n v)" by (rule viewer_ok_notify [OF Cons.prems(1)])
  have step: "count_of (notify n v) nm = clamped_count (count_of v nm) [n]"
    using Cons.prems assms by (intro count_of_notify) simp_all
  have "count_of (notify_all ns (notify n v)) nm = clamped_count (count_of (notify n v) nm) ns"
    using Cons.prems(2) by (intro Cons.IH [OF ok']) simp
  then show ?case
    by (simp add: notify_all_def step clamped_count_Cons [of "count_of v nm" n ns])
qed

lemma all_matched_count:
  "all_matched c ns \<Longrightarrow> clamped_count c ns = c + int (adds ns) - int (removes ns)"
proof (induction c ns rule: clamped_count.induct)
  case (1 c)
  show ?case by (simp add: adds_def removes_def)
next
  case (2 c n ns)
  then show ?case by (simp add: adds_def removes_def)
next
  case (3 c n ns)
  then show ?case by (simp add: adds_def removes_def max_def)
qed

lemma stays_registered_pos: "stays_registered c ns \<Longrightarrow> 0 < c"
proof (cases ns)
  case Nil
  then show "stays_registered c ns \<Longrightarrow> ?thesis" by simp
next
  case (Cons n ns')
  then show "stays_registered c ns \<Longrightarrow> ?thesis" by (cases n) simp_all
qed

lemma same_instance:
  assumes "prefix ''hotspot'' nm"
  shows "viewer_ok v \<Longrightarrow> \<forall>n\<in>set ns. slot_of (node_of n) = Some nm \<Longrightarrow>
    hotspotMap v nm = Some r \<Longrightarrow> stays_registered (count_of v nm) ns \<Longrightarrow>
    hotspotMap (notify_all ns v) nm = Some r"
proof (induction ns arbitrary: v)
  case Nil
  then show ?case by (simp add: notify_all_def)
next
  case (Cons n ns)
  note ok = Cons.prems(1) and reg = Cons.prems(3)
  have ok': "viewer_ok (notify n v)" by (rule viewer_ok_notify [OF ok])
  have slot: "slot_of (node_of n) = Some nm" using Cons.prems(2) by simp
  have step: "count_of (notify n v) nm = clamped_count (count_of v nm) [n]"
    using ok assms slot by (rule count_of_notify)
  have cnt: "count_of v nm = referenceCount (heap v r)" using reg by (simp add: count_of_def)
  have "hotspotMap (notify n v) nm = Some r \<and> stays_registered (count_of (notify n v) nm) ns"
  proof (cases n)
    case (Added x)
    with slot obtain p q where x: "x = HTMLElement nm p q" using slot_of_Some by fastforce
    from Added x Cons.prems(4) step registered_add [OF assms reg, of p q] show ?thesis
      by (simp del: addHotspot.simps)
  next
    case (Removed x)
    with slot obtain p q where x: "x = HTMLElement nm p q" using slot_of_Some by fastforce
    from Removed Cons.prems(4) have st: "stays_registered (count_of v nm - 1) ns" by simp
    from stays_registered_pos [OF st] cnt have ne: "referenceCount (heap v r) \<noteq> 1" by simp
    from stays_registered_pos [OF st] have "max 0 (count_of v nm - 1) = count_of v nm - 1"
      by simp
    with Removed x st step registered_remove [OF reg ne, of p q] show ?thesis
      by (simp del: removeHotspot.simps)
  qed
  then have "hotspotMap (notify_all ns (notify n v)) nm = Some r"
    using Cons.prems(2) by (intro Cons.IH [OF ok']) simp_all
  then show ?case by (simp add: notify_all_def)
qed

subsection \<open>Ticks and frames\<close>

lemma keeps_flag: "keeps_flag_and_log st \<Longrightarrow> isDirty (scene (st t d v)) = isDirty (scene v)"
  and keeps_log: "keeps_flag_and_log st \<Longrightarrow> calls (st t d v) = calls v"
  unfolding keeps_flag_and_log_def by blast+

lemma frame_clears: "\<not> isDirty (scene (frame st td v))"
  by (simp add: frame_def set_isDirty_def)

lemma frame_renders:
  "keeps_flag_and_log st \<Longrightarrow>
   overlay_renders (frame st td v) = overlay_renders v + (if isDirty (scene v) then 1 else 0)"
  by (simp add: frame_def tick_def set_isDirty_def overlay_renders_def Let_def keeps_flag keeps_log)

lemma frames_clean:
  "keeps_flag_and_log st \<Longrightarrow> \<not> isDirty (scene v) \<Longrightarrow>
   overlay_renders (fold (frame st) tds v) = overlay_renders v"
proof (induction tds arbitrary: v)
  case Nil
  show ?case by simp
next
  case (Cons td tds)
  have "overlay_renders (fold (frame st) tds (frame st td v)) = overlay_renders (frame st td v)"
    by (rule Cons.IH [OF Cons.prems(1) frame_clears])
  with Cons.prems show ?case by (simp add: frame_renders)
qed

lemma frames_render_once:
  "keeps_flag_and_log st \<Longrightarrow>
   overlay_renders (fold (frame st) tds v) =
     overlay_renders v + (if isDirty (scene v) \<and> tds \<noteq> [] then 1 else 0)"
proof (cases tds)
  case Nil
  then show ?thesis by simp
next
  case (Cons td tds')
  assume k: "keeps_flag_and_log st"
  have "overlay_renders (fold (frame st) tds' (frame st td v)) = overlay_renders (frame st td v)"
    by (rule frames_clean [OF k frame_clears])
  with Cons k show ?thesis by (simp add: frame_renders)
qed

lemma addHotspot_calls: "calls (addHotspot n v) = calls v"
  by (cases n) (simp_all add: set_isDirty_def Let_def split: option.split)

lemma removeHotspot_calls: "calls (removeHotspot n v) = calls v"
  by (cases n) (simp_all add: set_isDirty_def Let_def decrement_def split: option.split)

lemma addHotspot_dirty:
  "prefix ''hotspot'' slot \<Longrightarrow> isDirty (scene (addHotspot (HTMLElement slot p q) v))"
  by (simp add: indexOf_zero_iff set_isDirty_def)

lemma removeHotspot_dirty:
  "hotspotMap v slot = Some r \<Longrightarrow> isDirty (scene (removeHotspot (HTMLElement slot p q) v))"
  by (simp add: set_isDirty_def Let_def decrement_def)

subsection \<open>Render requests\<close>

lemma addHotspot_requests: "needsRenderCalls (addHotspot n v) = needsRenderCalls v"
  by (cases n) (simp_all add: set_isDirty_def Let_def split: option.split)

lemma removeHotspot_requests: "needsRenderCalls (removeHotspot n v) = needsRenderCalls v"
  by (cases n) (simp_all add: set_isDirty_def Let_def decrement_def split: option.split)

lemma fold_addHotspot_requests: "needsRenderCalls (fold addHotspot ns v) = needsRenderCalls v"
  by (induction ns arbitrary: v) (simp_all add: addHotspot_requests del: addHotspot.simps)

lemma fold_removeHotspot_requests: "needsRenderCalls (fold removeHotspot ns v) = needsRenderCalls v"
  by (induction ns arbitrary: v) (simp_all add: removeHotspot_requests del: removeHotspot.simps)

lemma processMutation_requests:
  "needsRenderCalls (processMutation m v) = needsRenderCalls v + (if is_childList m then 1 else 0)"
  by (simp add: processMutation_def needsRender_def fold_addHotspot_requests
      fold_removeHotspot_requests)

lemma mutationCallback_requests:
  "needsRenderCalls (mutationCallback ms v) = needsRenderCalls v + length (filter is_childList ms)"
  unfolding mutationCallback_def
  by (induction ms arbitrary: v) (simp_all add: processMutation_requests)

lemma viewer_ok_needsRender: "viewer_ok v \<Longrightarrow> viewer_ok (needsRender v)"
  by (simp add: viewer_ok_def needsRender_def set_isDirty_def)

lemma viewer_ok_fold_addHotspot: "viewer_ok v \<Longrightarrow> viewer_ok (fold addHotspot ns v)"
  by (induction ns arbitrary: v) (simp_all add: viewer_ok_addHotspot del: addHotspot.simps)

lemma viewer_ok_fold_removeHotspot: "viewer_ok v \<Longrightarrow> viewer_ok (fold removeHotspot ns v)"
  by (induction ns arbitrary: v) (simp_all add: viewer_ok_removeHotspot del: removeHotspot.simps)

lemma viewer_ok_connectedCallback:
  "viewer_ok (super_connectedCallback v) \<Longrightarrow>
   viewer_ok (connectedCallback super_connectedCallback children v)"
  by (simp add: connectedCallback_def viewer_ok_fold_addHotspot)

lemma viewer_ok_processMutation: "viewer_ok v \<Longrightarrow> viewer_ok (processMutation m v)"
  by (simp add: processMutation_def viewer_ok_needsRender viewer_ok_fold_addHotspot
      viewer_ok_fold_removeHotspot)

lemma viewer_ok_mutationCallback: "viewer_ok v \<Longrightarrow> viewer_ok (mutationCallback ms v)"
  unfolding mutationCallback_def
  by (induction ms arbitrary: v) (simp_all add: viewer_ok_processMutation)

lemma viewer_ok_tick:
  "viewer_ok (super_tick time delta v) \<Longrightarrow> viewer_ok (tick super_tick time delta v)"
  by (simp add: tick_def Let_def viewer_ok_def)

subsection \<open>Evaluation at the concrete inputs\<close>

lemmas eval_defs =
  node1_def node2_def new_viewer_def indexOf_def set_isDirty_def increment_def decrement_def
  new_Hotspot_def Let_def model_addHotspot_def model_removeHotspot_def appendChild_def

lemma scene0_no_hotspots: "hotspots (model scene0) = []"
  by (simp add: scene0_def)

lemma viewer_ok_start: "viewer_ok (new_viewer scene0)"
  by (rule viewer_ok_new_viewer [OF scene0_no_hotspots])

lemma two_adds_registry:
  "hotspotMap (addHotspot node2 (addHotspot node1 (new_viewer scene0))) ''hotspot-1'' = Some 0"
  by (simp add: node1_def node2_def new_viewer_def indexOf_def set_isDirty_def)

lemma two_adds_count:
  "referenceCount (heap (addHotspot node2 (addHotspot node1 (new_viewer scene0))) 0) = 2"
  by (simp add: node1_def node2_def new_viewer_def indexOf_def set_isDirty_def increment_def
      new_Hotspot_def Let_def)

lemma one_add_registry: "hotspotMap (addHotspot node1 (new_viewer scene0)) ''hotspot-1'' = Some 0"
  by (simp add: eval_defs)

lemma one_add_count: "count_of (addHotspot node1 (new_viewer scene0)) ''hotspot-1'' = 1"
  by (simp add: eval_defs count_of_def)

lemma viewer_ok_one_add: "viewer_ok (addHotspot node1 (new_viewer scene0))"
  by (rule viewer_ok_addHotspot [OF viewer_ok_start])

lemma scene0_size: "width (scene (new_viewer scene0)) = 800" "height (scene (new_viewer scene0)) = 600"
  by (simp_all add: new_viewer_def scene0_def)

section \<open>The claims\<close>

subsection \<open>Reference counting\<close>

text \<open>
  C1 (as amended). In a reachable state, for every sequence of add and remove notifications
  for elements whose slot is one name starting with \<^verbatim>\<open>hotspot\<close>: the registry's count
  for the name is the running net count of the adds and removes in which a remove that finds
  no Hotspot is ignored, so it is never below 0; the name has no Hotspot in the registry
  exactly when that count is 0; the model holds at most one Hotspot of that name, namely the
  registered one, so the Hotspot is off the model exactly when it is out of the registry;
  when every remove arrives while the count is positive, the count is the initial count plus
  the number of adds minus the number of removes; and while the count stays positive the
  registry answers the same object.
\<close>

theorem registry_reference_counting:
  assumes "viewer_ok v" and "prefix ''hotspot'' nm"
    and "\<forall>n\<in>set ns. slot_of (node_of n) = Some nm"
  shows "count_of (notify_all ns v) nm = clamped_count (count_of v nm) ns \<and>
    0 \<le> count_of (notify_all ns v) nm \<and>
    (hotspotMap (notify_all ns v) nm = None \<longleftrightarrow> clamped_count (count_of v nm) ns = 0) \<and>
    attached (notify_all ns v) nm =
      (case hotspotMap (notify_all ns v) nm of None \<Rightarrow> [] | Some r \<Rightarrow> [r]) \<and>
    (all_matched (count_of v nm) ns \<longrightarrow>
       count_of (notify_all ns v) nm = count_of v nm + int (adds ns) - int (removes ns)) \<and>
    (\<forall>r. hotspotMap v nm = Some r \<and> stays_registered (count_of v nm) ns \<longrightarrow>
       hotspotMap (notify_all ns v) nm = Some r)"
proof -
  have ok': "viewer_ok (notify_all ns v)" by (rule viewer_ok_notify_all [OF assms(1)])
  have cnt: "count_of (notify_all ns v) nm = clamped_count (count_of v nm) ns"
    by (rule count_of_notify_all [OF assms(2) assms(1) assms(3)])
  have nonneg: "0 \<le> count_of (notify_all ns v) nm" by (rule count_of_nonneg [OF ok'])
  have zero: "hotspotMap (notify_all ns v) nm = None \<longleftrightarrow> clamped_count (count_of v nm) ns = 0"
    using count_of_zero_iff [OF ok', of nm] cnt by simp
  have att: "attached (notify_all ns v) nm =
      (case hotspotMap (notify_all ns v) nm of None \<Rightarrow> [] | Some r \<Rightarrow> [r])"
    by (rule attached_registered [OF ok'])
  have net: "all_matched (count_of v nm) ns \<longrightarrow>
       count_of (notify_all ns v) nm = count_of v nm + int (adds ns) - int (removes ns)"
    using cnt all_matched_count [of "count_of v nm" ns] by simp
  have same: "\<forall>r. hotspotMap v nm = Some r \<and> stays_registered (count_of v nm) ns \<longrightarrow>
       hotspotMap (notify_all ns v) nm = Some r"
    using same_instance [OF assms(2) assms(1) assms(3)] by blast
  from cnt nonneg zero att net same show ?thesis by blast
qed

text \<open>
  From one declaration of \<^verbatim>\<open>hotspot-1\<close>: a second add and a remove leave the same object
  with count 1; one more remove destroys it.
\<close>

theorem registry_reference_counting_witness:
  "viewer_ok (addHotspot node1 (new_viewer scene0)) \<and> prefix ''hotspot'' ''hotspot-1'' \<and>
   slot_of (node_of (Added node2)) = Some ''hotspot-1'' \<and>
   slot_of (node_of (Removed node1)) = Some ''hotspot-1'' \<and>
   slot_of (node_of (Removed node2)) = Some ''hotspot-1'' \<and>
   hotspotMap (addHotspot node1 (new_viewer scene0)) ''hotspot-1'' = Some 0 \<and>
   all_matched (count_of (addHotspot node1 (new_viewer scene0)) ''hotspot-1'')
     [Added node2, Removed node1] \<and>
   stays_registered (count_of (addHotspot node1 (new_viewer scene0)) ''hotspot-1'')
     [Added node2, Removed node1] \<and>
   count_of (notify_all [Added node2, Removed node1] (addHotspot node1 (new_viewer scene0)))
     ''hotspot-1'' = 1 \<and>
   hotspotMap (notify_all [Added node2, Removed node1] (addHotspot node1 (new_viewer scene0)))
     ''hotspot-1'' = Some 0 \<and>
   attached (notify_all [Added node2, Removed node1] (addHotspot node1 (new_viewer scene0)))
     ''hotspot-1'' = [0] \<and>
   count_of (notify_all [Added node2, Removed node1, Removed node2]
     (addHotspot node1 (new_viewer scene0))) ''hotspot-1'' = 0 \<and>
   hotspotMap (notify_all [Added node2, Removed node1, Removed node2]
     (addHotspot node1 (new_viewer scene0))) ''hotspot-1'' = None \<and>
   attached (notify_all [Added node2, Removed node1, Removed node2]
     (addHotspot node1 (new_viewer scene0))) ''hotspot-1'' = []"
proof -
  have pre: "prefix ''hotspot'' ''hotspot-1''" by simp
  have s2: "\<forall>n\<in>set [Added node2, Removed node1]. slot_of (node_of n) = Some ''hotspot-1''"
    and s3: "\<forall>n\<in>set [Added node2, Removed node1, Removed node2].
      slot_of (node_of n) = Some ''hotspot-1''"
    by (simp_all add: node1_def node2_def)
  from registry_reference_counting [OF viewer_ok_one_add pre s2]
    registry_reference_counting [OF viewer_ok_one_add pre s3]
    viewer_ok_one_add one_add_registry one_add_count
  show ?thesis
    by (simp add: node1_def node2_def adds_def removes_def)
qed

text \<open>
  C1 as stated fails for a remove that arrives before the add: the remove is ignored, the
  count after the add is 1 and the Hotspot exists, while the number of adds minus the number
  of removes is 0.
\<close>

theorem registry_reference_counting_counterexample:
  "count_of (notify_all [Removed node1, Added node1] (new_viewer scene0)) ''hotspot-1'' = 1 \<and>
   adds_minus_removes [Removed node1, Added node1] = 0 \<and>
   count_of (notify_all [Removed node1, Added node1] (new_viewer scene0)) ''hotspot-1'' \<noteq>
     adds_minus_removes [Removed node1, Added node1] \<and>
   hotspotMap (notify_all [Removed node1, Added node1] (new_viewer scene0)) ''hotspot-1'' = Some 0"
  by (simp add: eval_defs notify_all_def count_of_def adds_minus_removes_def adds_def removes_def)

subsection \<open>\<^verbatim>\<open>$addHotspot\<close> and \<^verbatim>\<open>$removeHotspot\<close>\<close>

text \<open>
  C2. \<^verbatim>\<open>$addHotspot\<close> (onChildAdded): for a node that is not an element, and for an element
  whose slot does not start with \<^verbatim>\<open>hotspot\<close>, the call leaves the whole state as it was
  (registry, model, overlay container and dirty flag included). For an element whose slot
  starts with \<^verbatim>\<open>hotspot\<close> and is not yet a key of the registry, in a reachable state: a new
  Hotspot object (a reference that neither the registry, the model nor the overlay container
  holds) is built from the slot and the node's data-position and data-normal as they are at
  the call, with count 1, and no other object changes; it is entered into the registry under
  the full slot string, attached to the model, its element is appended to the overlay
  container, and the dirty flag is set.
\<close>

theorem addHotspot_registers:
  "addHotspot OtherNode v = v \<and>
   (\<not> prefix ''hotspot'' slot \<longrightarrow> addHotspot (HTMLElement slot p q) v = v) \<and>
   (viewer_ok v \<and> prefix ''hotspot'' slot \<and> hotspotMap v slot = None \<longrightarrow>
      heap (addHotspot (HTMLElement slot p q) v) (nextRef v) =
        \<lparr>hs_name = slot, hs_position = p, hs_normal = q, referenceCount = 1\<rparr> \<and>
      (\<forall>r. r \<noteq> nextRef v \<longrightarrow> heap (addHotspot (HTMLElement slot p q) v) r = heap v r) \<and>
      hotspotMap (addHotspot (HTMLElement slot p q) v) = (hotspotMap v)(slot \<mapsto> nextRef v) \<and>
      nextRef v \<notin> ran (hotspotMap v) \<and>
      nextRef v \<notin> set (hotspots (model (scene v))) \<and>
      HotspotElement (nextRef v) \<notin> set (domElement v) \<and>
      hotspots (model (scene (addHotspot (HTMLElement slot p q) v))) =
        hotspots (model (scene v)) @ [nextRef v] \<and>
      domElement (addHotspot (HTMLElement slot p q) v) =
        domElement v @ [HotspotElement (nextRef v)] \<and>
      isDirty (scene (addHotspot (HTMLElement slot p q) v)))"
proof (intro conjI impI)
  show "addHotspot OtherNode v = v" by simp
next
  assume "\<not> prefix ''hotspot'' slot"
  then show "addHotspot (HTMLElement slot p q) v = v" by (rule addHotspot_ineligible)
next
  assume a: "viewer_ok v \<and> prefix ''hotspot'' slot \<and> hotspotMap v slot = None"
  then have ok: "viewer_ok v" and pre: "prefix ''hotspot'' slot" and none: "hotspotMap v slot = None"
    by simp_all
  note new = addHotspot_new [OF pre none, of p q]
  show "heap (addHotspot (HTMLElement slot p q) v) (nextRef v) =
        \<lparr>hs_name = slot, hs_position = p, hs_normal = q, referenceCount = 1\<rparr>"
    unfolding new by simp
  show "\<forall>r. r \<noteq> nextRef v \<longrightarrow> heap (addHotspot (HTMLElement slot p q) v) r = heap v r"
    unfolding new by simp
  show "hotspotMap (addHotspot (HTMLElement slot p q) v) = (hotspotMap v)(slot \<mapsto> nextRef v)"
    unfolding new by simp
  show "nextRef v \<notin> ran (hotspotMap v)"
    using ok_fresh [OF ok] by (auto simp: ran_def)
  show "nextRef v \<notin> set (hotspots (model (scene v)))"
    by (rule ok_model_fresh [OF ok])
  show "HotspotElement (nextRef v) \<notin> set (domElement v)"
    using ok_overlay [OF ok, of "nextRef v"] by auto
  show "hotspots (model (scene (addHotspot (HTMLElement slot p q) v))) =
        hotspots (model (scene v)) @ [nextRef v]"
    unfolding new by simp
  show "domElement (addHotspot (HTMLElement slot p q) v) =
        domElement v @ [HotspotElement (nextRef v)]"
    unfolding new by (simp add: ok_overlay_fresh [OF ok])
  show "isDirty (scene (addHotspot (HTMLElement slot p q) v))"
    unfolding new by simp
qed

text \<open>
  At a text node, at the default slot, and at the first declaration of \<^verbatim>\<open>hotspot-1\<close>.
\<close>

theorem addHotspot_registers_witness:
  "addHotspot OtherNode (new_viewer scene0) = new_viewer scene0 \<and>
   \<not> prefix ''hotspot'' ''default'' \<and>
   addHotspot (HTMLElement ''default'' None None) (new_viewer scene0) = new_viewer scene0 \<and>
   viewer_ok (new_viewer scene0) \<and> prefix ''hotspot'' ''hotspot-1'' \<and>
   hotspotMap (new_viewer scene0) ''hotspot-1'' = None \<and>
   heap (addHotspot node1 (new_viewer scene0)) 0 =
     \<lparr>hs_name = ''hotspot-1'', hs_position = Some ''0 0 0'', hs_normal = Some ''0 1 0'',
      referenceCount = 1\<rparr> \<and>
   hotspotMap (addHotspot node1 (new_viewer scene0)) ''hotspot-1'' = Some 0 \<and>
   hotspots (model (scene (addHotspot node1 (new_viewer scene0)))) = [0] \<and>
   domElement (addHotspot node1 (new_viewer scene0)) = [DefaultSlot, HotspotElement 0] \<and>
   isDirty (scene (addHotspot node1 (new_viewer scene0)))"
proof -
  have a: "\<not> prefix ''hotspot'' ''default''" and b: "prefix ''hotspot'' ''hotspot-1''"
    and c: "hotspotMap (new_viewer scene0) ''hotspot-1'' = None"
    and d: "nextRef (new_viewer scene0) = 0"
    and e: "hotspots (model (scene (new_viewer scene0))) = []"
    and f: "domElement (new_viewer scene0) = [DefaultSlot]"
    by (simp_all add: new_viewer_def scene0_def)
  from addHotspot_registers
      [where v = "new_viewer scene0" and slot = "''default''" and p = None and q = None]
    addHotspot_registers
      [where v = "new_viewer scene0" and slot = "''hotspot-1''" and p = "Some ''0 0 0''"
        and q = "Some ''0 1 0''"]
    viewer_ok_start a b c
  show ?thesis by (simp add: node1_def d e f)
qed

text \<open>
  C3. \<^verbatim>\<open>$removeHotspot\<close> (onChildRemoved), in a reachable state: for a node that is not
  an element, for an element whose slot does not start with \<^verbatim>\<open>hotspot\<close>, and for a slot
  with no Hotspot in the registry, the call leaves the whole state as it was. Otherwise the
  Hotspot's count goes down by one and the dirty flag is set, whether or not the count
  reached zero; when it reached zero the Hotspot is taken off the model (where it was) and
  its key is deleted from the registry, which then holds the object under no name; when it
  did not, the registry and the model's hotspots stay as they were.
\<close>

theorem removeHotspot_releases:
  "viewer_ok v \<Longrightarrow>
   removeHotspot OtherNode v = v \<and>
   (\<not> prefix ''hotspot'' slot \<longrightarrow> removeHotspot (HTMLElement slot p q) v = v) \<and>
   (hotspotMap v slot = None \<longrightarrow> removeHotspot (HTMLElement slot p q) v = v) \<and>
   (\<forall>r. hotspotMap v slot = Some r \<longrightarrow>
      referenceCount (heap (removeHotspot (HTMLElement slot p q) v) r) =
        referenceCount (heap v r) - 1 \<and>
      isDirty (scene (removeHotspot (HTMLElement slot p q) v)) \<and>
      (if referenceCount (heap v r) - 1 = 0
       then hotspotMap (removeHotspot (HTMLElement slot p q) v) = (hotspotMap v)(slot := None) \<and>
            hotspots (model (scene (removeHotspot (HTMLElement slot p q) v))) =
              removeAll r (hotspots (model (scene v))) \<and>
            r \<in> set (hotspots (model (scene v))) \<and>
            r \<notin> ran (hotspotMap (removeHotspot (HTMLElement slot p q) v))
       else hotspotMap (removeHotspot (HTMLElement slot p q) v) = hotspotMap v \<and>
            hotspots (model (scene (removeHotspot (HTMLElement slot p q) v))) =
              hotspots (model (scene v))))"
proof (intro conjI impI allI)
  show "removeHotspot OtherNode v = v" by simp
next
  assume "viewer_ok v" "\<not> prefix ''hotspot'' slot"
  then show "removeHotspot (HTMLElement slot p q) v = v"
    by (simp add: ok_unregistered)
next
  assume "hotspotMap v slot = None"
  then show "removeHotspot (HTMLElement slot p q) v = v" by simp
next
  fix r assume ok: "viewer_ok v" and some: "hotspotMap v slot = Some r"
  show "referenceCount (heap (removeHotspot (HTMLElement slot p q) v) r) =
        referenceCount (heap v r) - 1"
    using some by (simp add: decrement_def Let_def set_isDirty_def)
  show "isDirty (scene (removeHotspot (HTMLElement slot p q) v))"
    using some by (simp add: decrement_def Let_def set_isDirty_def)
  show "if referenceCount (heap v r) - 1 = 0
       then hotspotMap (removeHotspot (HTMLElement slot p q) v) = (hotspotMap v)(slot := None) \<and>
            hotspots (model (scene (removeHotspot (HTMLElement slot p q) v))) =
              removeAll r (hotspots (model (scene v))) \<and>
            r \<in> set (hotspots (model (scene v))) \<and>
            r \<notin> ran (hotspotMap (removeHotspot (HTMLElement slot p q) v))
       else hotspotMap (removeHotspot (HTMLElement slot p q) v) = hotspotMap v \<and>
            hotspots (model (scene (removeHotspot (HTMLElement slot p q) v))) =
              hotspots (model (scene v))"
  proof (cases "referenceCount (heap v r) = 1")
    case True
    have ran_eq: "ran ((hotspotMap v)(slot := None)) = ran (hotspotMap v) - {r}"
    proof (rule ran_remove_inj [where m = "hotspotMap v" and k = slot and r = r])
      show "hotspotMap v slot = Some r" by (rule some)
      show "k' = slot" if "hotspotMap v k' = Some r" for k'
        using that by (rule ok_inj [OF ok _ some])
    qed
    have "r \<in> set (hotspots (model (scene v)))"
      using ok_model [OF ok] some by (auto simp: ran_def)
    then show ?thesis
      unfolding removeHotspot_last [OF some True] using True by (simp add: ran_eq)
  next
    case False
    then show ?thesis
      unfolding removeHotspot_shared [OF some False] using False by simp
  qed
qed

text \<open>
  Removing one of two declarations of \<^verbatim>\<open>hotspot-1\<close> leaves the Hotspot with count 1;
  removing the only declaration deletes it; the default slot and the unknown name
  \<^verbatim>\<open>hotspot-2\<close> change nothing.
\<close>

theorem removeHotspot_releases_witness:
  "viewer_ok (addHotspot node2 (addHotspot node1 (new_viewer scene0))) \<and>
   hotspotMap (addHotspot node2 (addHotspot node1 (new_viewer scene0))) ''hotspot-1'' = Some 0 \<and>
   referenceCount (heap (removeHotspot node1
      (addHotspot node2 (addHotspot node1 (new_viewer scene0)))) 0) = 1 \<and>
   hotspotMap (removeHotspot node1
      (addHotspot node2 (addHotspot node1 (new_viewer scene0)))) ''hotspot-1'' = Some 0 \<and>
   isDirty (scene (removeHotspot node1
      (addHotspot node2 (addHotspot node1 (new_viewer scene0))))) \<and>
   viewer_ok (addHotspot node1 (new_viewer scene0)) \<and>
   hotspotMap (addHotspot node1 (new_viewer scene0)) ''hotspot-1'' = Some 0 \<and>
   referenceCount (heap (removeHotspot node2 (addHotspot node1 (new_viewer scene0))) 0) = 0 \<and>
   hotspotMap (removeHotspot node2 (addHotspot node1 (new_viewer scene0))) ''hotspot-1'' = None \<and>
   hotspots (model (scene (removeHotspot node2 (addHotspot node1 (new_viewer scene0))))) = [] \<and>
   \<not> prefix ''hotspot'' ''default'' \<and>
   removeHotspot (HTMLElement ''default'' None None) (addHotspot node1 (new_viewer scene0)) =
     addHotspot node1 (new_viewer scene0) \<and>
   hotspotMap (addHotspot node1 (new_viewer scene0)) ''hotspot-2'' = None \<and>
   removeHotspot (HTMLElement ''hotspot-2'' None None) (addHotspot node1 (new_viewer scene0)) =
     addHotspot node1 (new_viewer scene0)"
proof -
  let ?s1 = "addHotspot node1 (new_viewer scene0)"
  let ?s2 = "addHotspot node2 ?s1"
  have ok1: "viewer_ok ?s1" by (rule viewer_ok_addHotspot [OF viewer_ok_start])
  have ok2: "viewer_ok ?s2" by (rule viewer_ok_addHotspot [OF ok1])
  have r1: "hotspotMap ?s1 ''hotspot-1'' = Some 0" and c1: "referenceCount (heap ?s1 0) = 1"
    and h1: "hotspots (model (scene ?s1)) = [0]"
    and n1: "hotspotMap ?s1 ''hotspot-2'' = None"
    by (simp_all add: eval_defs scene0_def)
  have a: "\<not> prefix ''hotspot'' ''default''" by simp
  from removeHotspot_releases
      [OF ok2, where slot = "''hotspot-1''" and p = "Some ''0 0 0''" and q = "Some ''0 1 0''"]
    removeHotspot_releases
      [OF ok1, where slot = "''hotspot-1''" and p = "Some ''1 1 1''" and q = "Some ''1 0 0''"]
    removeHotspot_releases [OF ok1, where slot = "''default''" and p = None and q = None]
    removeHotspot_releases [OF ok1, where slot = "''hotspot-2''" and p = None and q = None]
    ok1 ok2 two_adds_registry two_adds_count r1 c1 h1 n1 a
  show ?thesis by (simp add: node1_def node2_def)
qed

subsection \<open>\<^verbatim>\<open>$tick\<close>\<close>

text \<open>
  C4. On a tick, once the base tick has run: if the scene is not dirty the tick does nothing
  more (neither the model's \<^verbatim>\<open>updateHotspots\<close> nor the overlay's \<^verbatim>\<open>render\<close> is called); if it
  is dirty, \<^verbatim>\<open>updateHotspots\<close> is called with the camera's position and then the overlay is
  rendered with the scene and the camera. The tick itself leaves the flag as the base tick
  left it. Consequently, over frames whose base tick leaves
  the flag and the log alone and after each of which the scene's side clears the flag, the
  overlay is rendered once if the scene was dirty and there is a frame, and not again; in
  particular exactly once after an add of an eligible element or a remove of a registered one.
\<close>

theorem tick_renders_when_dirty:
  "(\<not> isDirty (scene (super_tick time delta v)) \<longrightarrow>
      tick super_tick time delta v = super_tick time delta v) \<and>
   (isDirty (scene (super_tick time delta v)) \<longrightarrow>
      tick super_tick time delta v =
        (super_tick time delta v)
          \<lparr>calls := calls (super_tick time delta v) @
             [UpdateHotspots (cam_position (getCamera (scene (super_tick time delta v)))),
              RenderOverlay (scene (super_tick time delta v))
                (getCamera (scene (super_tick time delta v)))]\<rparr>) \<and>
   isDirty (scene (tick super_tick time delta v)) = isDirty (scene (super_tick time delta v)) \<and>
   (keeps_flag_and_log super_tick \<longrightarrow>
      overlay_renders (fold (frame super_tick) tds v) =
        overlay_renders v + (if isDirty (scene v) \<and> tds \<noteq> [] then 1 else 0)) \<and>
   (keeps_flag_and_log super_tick \<and> prefix ''hotspot'' slot \<longrightarrow>
      overlay_renders (fold (frame super_tick) (td # tds) (addHotspot (HTMLElement slot p q) v)) =
        overlay_renders v + 1) \<and>
   (keeps_flag_and_log super_tick \<and> hotspotMap v slot = Some r \<longrightarrow>
      overlay_renders (fold (frame super_tick) (td # tds) (removeHotspot (HTMLElement slot p q) v)) =
        overlay_renders v + 1)"
proof (intro conjI impI)
  show "tick super_tick time delta v = super_tick time delta v"
    if "\<not> isDirty (scene (super_tick time delta v))"
    using that by (simp add: tick_def)
  show "tick super_tick time delta v =
        (super_tick time delta v)
          \<lparr>calls := calls (super_tick time delta v) @
             [UpdateHotspots (cam_position (getCamera (scene (super_tick time delta v)))),
              RenderOverlay (scene (super_tick time delta v))
                (getCamera (scene (super_tick time delta v)))]\<rparr>"
    if "isDirty (scene (super_tick time delta v))"
    using that by (simp add: tick_def Let_def)
  show "isDirty (scene (tick super_tick time delta v)) = isDirty (scene (super_tick time delta v))"
    by (simp add: tick_def Let_def)
  show "overlay_renders (fold (frame super_tick) tds v) =
        overlay_renders v + (if isDirty (scene v) \<and> tds \<noteq> [] then 1 else 0)"
    if "keeps_flag_and_log super_tick"
    using that by (rule frames_render_once)
  show "overlay_renders (fold (frame super_tick) (td # tds) (addHotspot (HTMLElement slot p q) v)) =
        overlay_renders v + 1"
    if "keeps_flag_and_log super_tick \<and> prefix ''hotspot'' slot"
    using that frames_render_once [of super_tick "td # tds" "addHotspot (HTMLElement slot p q) v"]
    by (simp add: addHotspot_dirty overlay_renders_def addHotspot_calls del: fold_simps addHotspot.simps)
  show "overlay_renders (fold (frame super_tick) (td # tds) (removeHotspot (HTMLElement slot p q) v)) =
        overlay_renders v + 1"
    if "keeps_flag_and_log super_tick \<and> hotspotMap v slot = Some r"
    using that frames_render_once [of super_tick "td # tds" "removeHotspot (HTMLElement slot p q) v"]
      removeHotspot_dirty [of v slot r p q]
    by (simp add: overlay_renders_def removeHotspot_calls del: fold_simps removeHotspot.simps)
qed

text \<open>
  A tick on the clean initial state does nothing; after the add of \<^verbatim>\<open>hotspot-1\<close> the tick
  logs the two calls, and three frames render the overlay once; likewise after a remove.
\<close>

theorem tick_renders_when_dirty_witness:
  "keeps_flag_and_log (\<lambda>time delta (s :: real viewer). s) \<and>
   prefix ''hotspot'' ''hotspot-1'' \<and>
   \<not> isDirty (scene (new_viewer scene0)) \<and>
   tick (\<lambda>time delta s. s) 16 16 (new_viewer scene0) = new_viewer scene0 \<and>
   isDirty (scene (addHotspot node1 (new_viewer scene0))) \<and>
   calls (tick (\<lambda>time delta s. s) 16 16 (addHotspot node1 (new_viewer scene0))) =
     [UpdateHotspots \<lparr>v3x = 0, v3y = 0, v3z = 5\<rparr>,
      RenderOverlay (scene (addHotspot node1 (new_viewer scene0)))
        \<lparr>cam_position = \<lparr>v3x = 0, v3y = 0, v3z = 5\<rparr>\<rparr>] \<and>
   overlay_renders (fold (frame (\<lambda>time delta s. s)) [(16, 16), (32, 16), (48, 16)]
     (addHotspot node1 (new_viewer scene0))) = 1 \<and>
   hotspotMap (addHotspot node1 (new_viewer scene0)) ''hotspot-1'' = Some 0 \<and>
   overlay_renders (fold (frame (\<lambda>time delta s. s)) [(16, 16), (32, 16), (48, 16)]
     (removeHotspot node1 (set_isDirty False (addHotspot node1 (new_viewer scene0))))) = 1"
proof -
  let ?id = "\<lambda>(time::real) (delta::real) (s :: real viewer). s"
  let ?s1 = "addHotspot node1 (new_viewer scene0)"
  have k: "keeps_flag_and_log ?id" by (simp add: keeps_flag_and_log_def)
  have pre: "prefix ''hotspot'' ''hotspot-1''" by simp
  have clean: "\<not> isDirty (scene (new_viewer scene0))" by (simp add: new_viewer_def scene0_def)
  have dirty: "isDirty (scene ?s1)" by (simp add: eval_defs)
  have cam: "getCamera (scene ?s1) = \<lparr>cam_position = \<lparr>v3x = 0, v3y = 0, v3z = 5\<rparr>\<rparr>"
    by (simp add: eval_defs getCamera_def scene0_def)
  have log: "calls ?s1 = []" "overlay_renders (new_viewer scene0) = 0"
    "overlay_renders (set_isDirty False ?s1) = 0"
    by (simp_all add: eval_defs overlay_renders_def)
  have reg: "hotspotMap (set_isDirty False ?s1) ''hotspot-1'' = Some 0"
    by (simp add: eval_defs)
  from tick_renders_when_dirty [where super_tick = ?id and time = 16 and delta = 16
      and v = "new_viewer scene0" and tds = "[(32, 16), (48, 16)]" and td = "(16, 16)"
      and slot = "''hotspot-1''" and p = "Some ''0 0 0''" and q = "Some ''0 1 0''"]
    tick_renders_when_dirty [where super_tick = ?id and time = 16 and delta = 16
      and v = ?s1]
    tick_renders_when_dirty [where super_tick = ?id and v = "set_isDirty False ?s1"
      and tds = "[(32, 16), (48, 16)]" and td = "(16, 16)"
      and slot = "''hotspot-1''" and p = "Some ''0 0 0''" and q = "Some ''0 1 0''" and r = 0]
    k pre clean dirty cam log reg one_add_registry
  show ?thesis
    by (simp add: node1_def del: fold_simps addHotspot.simps removeHotspot.simps)
qed

subsection \<open>\<^verbatim>\<open>positionAndNormalFromPoint\<close>\<close>

text \<open>
  C5. For a viewport of positive width and height and every pixel, the scene's hit-test is
  asked at the normalized device coordinate \<open>((pixelX / width) * 2 - 1,
  - ((pixelY / height) * 2 - 1))\<close>: the result is what the source makes of the hit-test's
  answer at that coordinate. For the pixel at the centre of the viewport the coordinate is
  \<open>(0, 0)\<close>.
\<close>

theorem pick_ndc:
  "0 < width (scene v) \<Longrightarrow> 0 < height (scene v) \<Longrightarrow>
   positionAndNormalFromPoint ops v pixelX pixelY =
     map_option
       (\<lambda>hit. \<lparr>pick_position = toVector3D (applyMatrix4 ops (hit_position hit)
                    (getInverse ops (matrixWorld (model (scene v))))),
               pick_normal = toVector3D (hit_normal hit)\<rparr>)
       (hitTest (scene v)
          \<lparr>v2x = (pixelX / width (scene v)) * 2 - 1,
           v2y = - ((pixelY / height (scene v)) * 2 - 1)\<rparr>) \<and>
   positionAndNormalFromPoint ops v (width (scene v) / 2) (height (scene v) / 2) =
     map_option
       (\<lambda>hit. \<lparr>pick_position = toVector3D (applyMatrix4 ops (hit_position hit)
                    (getInverse ops (matrixWorld (model (scene v))))),
               pick_normal = toVector3D (hit_normal hit)\<rparr>)
       (hitTest (scene v) \<lparr>v2x = 0, v2y = 0\<rparr>)"
  by (simp add: positionAndNormalFromPoint_def set_v2_def multiplyScalar_def subScalar_def
      Let_def map_option_case split: option.split)

text \<open>
  In a scene of 800 by 600 pixels whose hit-test answers the coordinate it is asked at, the
  centre (400, 300) is asked at (0, 0), the corner (800, 0) at (1, 1) and the pixel
  (200, 450) at (-1/2, -1/2).
\<close>

theorem pick_ndc_witness:
  "(0::real) < width (scene (new_viewer scene_echo)) \<and>
   0 < height (scene (new_viewer scene_echo)) \<and>
   width (scene (new_viewer scene_echo)) / 2 = 400 \<and>
   height (scene (new_viewer scene_echo)) / 2 = 300 \<and>
   positionAndNormalFromPoint scale_ops (new_viewer scene_echo) 400 300 =
     Some \<lparr>pick_position = \<lparr>x3D = 0, y3D = 0, z3D = 0\<rparr>,
           pick_normal = \<lparr>x3D = 0, y3D = 0, z3D = 1\<rparr>\<rparr> \<and>
   positionAndNormalFromPoint scale_ops (new_viewer scene_echo) 800 0 =
     Some \<lparr>pick_position = \<lparr>x3D = 1, y3D = 1, z3D = 0\<rparr>,
           pick_normal = \<lparr>x3D = 0, y3D = 0, z3D = 1\<rparr>\<rparr> \<and>
   positionAndNormalFromPoint scale_ops (new_viewer scene_echo) 200 450 =
     Some \<lparr>pick_position = \<lparr>x3D = - (1 / 2), y3D = - (1 / 2), z3D = 0\<rparr>,
           pick_normal = \<lparr>x3D = 0, y3D = 0, z3D = 1\<rparr>\<rparr>"
proof -
  have size: "width (scene (new_viewer scene_echo)) = 800"
    "height (scene (new_viewer scene_echo)) = 600"
    by (simp_all add: new_viewer_def scene_echo_def)
  from pick_ndc [of "new_viewer scene_echo" scale_ops 400 300]
    pick_ndc [of "new_viewer scene_echo" scale_ops 800 0]
    pick_ndc [of "new_viewer scene_echo" scale_ops 200 450]
  show ?thesis
    by (simp add: size) (simp add: new_viewer_def scene_echo_def scale_ops_def toVector3D_def)
qed

text \<open>
  C6. When the hit-test reports an intersection, the returned position is the hit's
  position transformed (\<^verbatim>\<open>applyMatrix4\<close>) by the inverse (\<^verbatim>\<open>getInverse\<close>) of the model's
  \<^verbatim>\<open>matrixWorld\<close>, and the returned normal is the hit's normal as it is: no matrix is
  applied to it.
\<close>

theorem pick_hit:
  "0 < width (scene v) \<Longrightarrow> 0 < height (scene v) \<Longrightarrow>
   hitTest (scene v)
     \<lparr>v2x = (pixelX / width (scene v)) * 2 - 1,
      v2y = - ((pixelY / height (scene v)) * 2 - 1)\<rparr> = Some hit \<Longrightarrow>
   positionAndNormalFromPoint ops v pixelX pixelY =
     Some \<lparr>pick_position = toVector3D (applyMatrix4 ops (hit_position hit)
                    (getInverse ops (matrixWorld (model (scene v))))),
           pick_normal = toVector3D (hit_normal hit)\<rparr>"
  by (simp add: positionAndNormalFromPoint_def set_v2_def multiplyScalar_def subScalar_def
      Let_def)

text \<open>
  With the model scaled by 2, the hit at (2, 4, 6) is returned as (1, 2, 3) and its normal
  (0, 0, 1) unchanged.
\<close>

theorem pick_hit_witness:
  "(0::real) < width (scene (new_viewer scene0)) \<and> 0 < height (scene (new_viewer scene0)) \<and>
   hitTest (scene (new_viewer scene0))
     \<lparr>v2x = (400 / width (scene (new_viewer scene0))) * 2 - 1,
      v2y = - ((300 / height (scene (new_viewer scene0))) * 2 - 1)\<rparr> =
     Some \<lparr>hit_position = \<lparr>v3x = 2, v3y = 4, v3z = 6\<rparr>,
           hit_normal = \<lparr>v3x = 0, v3y = 0, v3z = 1\<rparr>\<rparr> \<and>
   matrixWorld (model (scene (new_viewer scene0))) = 2 \<and>
   positionAndNormalFromPoint scale_ops (new_viewer scene0) 400 300 =
     Some \<lparr>pick_position = \<lparr>x3D = 1, y3D = 2, z3D = 3\<rparr>,
           pick_normal = \<lparr>x3D = 0, y3D = 0, z3D = 1\<rparr>\<rparr>"
proof -
  have hit: "hitTest (scene (new_viewer scene0))
     \<lparr>v2x = (400 / width (scene (new_viewer scene0))) * 2 - 1,
      v2y = - ((300 / height (scene (new_viewer scene0))) * 2 - 1)\<rparr> =
     Some \<lparr>hit_position = \<lparr>v3x = 2, v3y = 4, v3z = 6\<rparr>,
           hit_normal = \<lparr>v3x = 0, v3y = 0, v3z = 1\<rparr>\<rparr>"
    by (simp add: new_viewer_def scene0_def)
  have w: "0 < width (scene (new_viewer scene0))" and h: "0 < height (scene (new_viewer scene0))"
    by (simp_all add: scene0_size)
  from pick_hit [OF w h hit, of scale_ops] hit w h show ?thesis
    by (simp add: new_viewer_def scene0_def scale_ops_def toVector3D_def)
qed

text \<open>
  C7. The result is \<^verbatim>\<open>null\<close> exactly when the hit-test finds nothing at the computed
  coordinate, for every pixel, in range or not. The function is total and has no error
  branch: nothing is thrown.
\<close>

theorem pick_null_iff:
  "0 < width (scene v) \<Longrightarrow> 0 < height (scene v) \<Longrightarrow>
   positionAndNormalFromPoint ops v pixelX pixelY = None \<longleftrightarrow>
   hitTest (scene v)
     \<lparr>v2x = (pixelX / width (scene v)) * 2 - 1,
      v2y = - ((pixelY / height (scene v)) * 2 - 1)\<rparr> = None"
  by (simp add: positionAndNormalFromPoint_def set_v2_def multiplyScalar_def subScalar_def
      Let_def split: option.split)

text \<open>The pixel (-50, 10000) is outside the viewport and gives \<^verbatim>\<open>null\<close>; the centre does not.\<close>

theorem pick_null_iff_witness:
  "(0::real) < width (scene (new_viewer scene0)) \<and> 0 < height (scene (new_viewer scene0)) \<and>
   hitTest (scene (new_viewer scene0))
     \<lparr>v2x = ((- 50) / width (scene (new_viewer scene0))) * 2 - 1,
      v2y = - ((10000 / height (scene (new_viewer scene0))) * 2 - 1)\<rparr> = None \<and>
   positionAndNormalFromPoint scale_ops (new_viewer scene0) (- 50) 10000 = None \<and>
   positionAndNormalFromPoint scale_ops (new_viewer scene0) 400 300 \<noteq> None"
proof -
  have w: "0 < width (scene (new_viewer scene0))" and h: "0 < height (scene (new_viewer scene0))"
    by (simp_all add: scene0_size)
  have miss: "hitTest (scene (new_viewer scene0))
     \<lparr>v2x = ((- 50) / width (scene (new_viewer scene0))) * 2 - 1,
      v2y = - ((10000 / height (scene (new_viewer scene0))) * 2 - 1)\<rparr> = None"
    and hit: "hitTest (scene (new_viewer scene0))
     \<lparr>v2x = (400 / width (scene (new_viewer scene0))) * 2 - 1,
      v2y = - ((300 / height (scene (new_viewer scene0))) * 2 - 1)\<rparr> \<noteq> None"
    by (simp_all add: new_viewer_def scene0_def)
  from pick_null_iff [OF w h, of scale_ops "- 50" 10000] pick_null_iff [OF w h, of scale_ops 400 300]
    miss hit w h
  show ?thesis by simp
qed

subsection \<open>\<^verbatim>\<open>updateHotspot\<close>\<close>

text \<open>
  C8. \<^verbatim>\<open>updateHotspot(config)\<close>: when the registry has no Hotspot under \<open>config.name\<close> the
  call changes nothing (and, being a total function with no error branch, does not throw).
  Otherwise the Hotspot the registry holds under that name has its position and its normal
  overwritten with the given values: the registry still answers the same object for the
  name, so every declaration sharing the name sees the update; the object's name and
  reference count, every other Hotspot and the model's list of hotspots are as before.
\<close>

theorem updateHotspot_overwrites:
  "(hotspotMap v (name config) = None \<longrightarrow> updateHotspot config v = v) \<and>
   (\<forall>r. hotspotMap v (name config) = Some r \<longrightarrow>
      hotspotMap (updateHotspot config v) (name config) = Some r \<and>
      hs_position (heap (updateHotspot config v) r) = position config \<and>
      hs_normal (heap (updateHotspot config v) r) = normal config \<and>
      hs_name (heap (updateHotspot config v) r) = hs_name (heap v r) \<and>
      referenceCount (heap (updateHotspot config v) r) = referenceCount (heap v r) \<and>
      (\<forall>r'. r' \<noteq> r \<longrightarrow> heap (updateHotspot config v) r' = heap v r') \<and>
      hotspots (model (scene (updateHotspot config v))) = hotspots (model (scene v)))"
  by (simp add: updateHotspot_def updatePosition_def updateNormal_def)

text \<open>
  At two declarations of \<^verbatim>\<open>hotspot-1\<close> (one object, count 2) the update is read back
  exactly; at the unknown name \<^verbatim>\<open>hotspot-9\<close> nothing changes.
\<close>

theorem updateHotspot_overwrites_witness:
  "hotspotMap (addHotspot node2 (addHotspot node1 (new_viewer scene0))) (name config1) = Some 0 \<and>
   referenceCount (heap (addHotspot node2 (addHotspot node1 (new_viewer scene0))) 0) = 2 \<and>
   hs_position (heap (updateHotspot config1
       (addHotspot node2 (addHotspot node1 (new_viewer scene0)))) 0) = Some ''1 2 3'' \<and>
   hs_normal (heap (updateHotspot config1
       (addHotspot node2 (addHotspot node1 (new_viewer scene0)))) 0) = Some ''0 1 0'' \<and>
   referenceCount (heap (updateHotspot config1
       (addHotspot node2 (addHotspot node1 (new_viewer scene0)))) 0) = 2 \<and>
   hotspotMap (new_viewer scene0) (name config9) = None \<and>
   updateHotspot config9 (new_viewer scene0) = new_viewer scene0"
  using updateHotspot_overwrites
      [of "addHotspot node2 (addHotspot node1 (new_viewer scene0))" config1]
    updateHotspot_overwrites [of "new_viewer scene0" config9]
    two_adds_registry two_adds_count
  by (simp add: new_viewer_def config1_def config9_def)

text \<open>
  C10. \<^verbatim>\<open>updateHotspot\<close> on an existing hotspot overwrites the position and the normal
  and leaves the scene (so its dirty flag), the registry, the count of render requests,
  the log of overlay calls and the overlay container as they were. So a tick after it, on
  which the scene is not dirty once the base tick has run, calls neither the model's
  recomputation nor the overlay renderer: the tick is the base tick alone.
\<close>

theorem updateHotspot_not_dirty:
  "hotspotMap v (name config) = Some r \<Longrightarrow>
   hs_position (heap (updateHotspot config v) r) = position config \<and>
   hs_normal (heap (updateHotspot config v) r) = normal config \<and>
   isDirty (scene (updateHotspot config v)) = isDirty (scene v) \<and>
   scene (updateHotspot config v) = scene v \<and>
   hotspotMap (updateHotspot config v) = hotspotMap v \<and>
   needsRenderCalls (updateHotspot config v) = needsRenderCalls v \<and>
   calls (updateHotspot config v) = calls v \<and>
   domElement (updateHotspot config v) = domElement v \<and>
   (\<forall>super_tick time delta.
      \<not> isDirty (scene (super_tick time delta (updateHotspot config v))) \<longrightarrow>
      tick super_tick time delta (updateHotspot config v) =
        super_tick time delta (updateHotspot config v))"
  by (simp add: updateHotspot_def updatePosition_def updateNormal_def tick_def)

text \<open>
  After a frame has cleared the flag, the update of \<^verbatim>\<open>hotspot-1\<close> leaves it cleared and
  the next tick (with a base tick that does nothing) leaves the state alone.
\<close>

theorem updateHotspot_not_dirty_witness:
  "hotspotMap (set_isDirty False (addHotspot node1 (new_viewer scene0))) (name config1) = Some 0 \<and>
   \<not> isDirty (scene (updateHotspot config1
        (set_isDirty False (addHotspot node1 (new_viewer scene0))))) \<and>
   hs_position (heap (updateHotspot config1
        (set_isDirty False (addHotspot node1 (new_viewer scene0)))) 0) = Some ''1 2 3'' \<and>
   needsRenderCalls (updateHotspot config1
        (set_isDirty False (addHotspot node1 (new_viewer scene0)))) = 0 \<and>
   tick (\<lambda>time delta s. s) 16 16
        (updateHotspot config1 (set_isDirty False (addHotspot node1 (new_viewer scene0)))) =
     updateHotspot config1 (set_isDirty False (addHotspot node1 (new_viewer scene0)))"
proof -
  have reg: "hotspotMap (set_isDirty False (addHotspot node1 (new_viewer scene0))) (name config1)
      = Some 0"
    by (simp add: node1_def config1_def new_viewer_def indexOf_def set_isDirty_def)
  have clean: "\<not> isDirty (scene (set_isDirty False (addHotspot node1 (new_viewer scene0))))"
    by (simp add: set_isDirty_def)
  have req: "needsRenderCalls (set_isDirty False (addHotspot node1 (new_viewer scene0))) = 0"
    by (simp add: node1_def new_viewer_def indexOf_def set_isDirty_def)
  from updateHotspot_not_dirty [OF reg] reg clean req show ?thesis
    by (simp add: config1_def)
qed

subsection \<open>The mutation callback\<close>

text \<open>
  C9 (as amended). The callback processes the delivered records in order, one after the
  other. For each record that is not a \<^verbatim>\<open>MutationRecord\<close> or is one of type \<^verbatim>\<open>childList\<close>,
  every added node of that record is processed before any removed node of that record, and
  then \<^verbatim>\<open>$needsRender\<close> is called once; so a batch of one such record is processed as the
  claim says. A \<^verbatim>\<open>MutationRecord\<close> of another type is skipped. Over the whole batch
  \<^verbatim>\<open>$needsRender\<close> is called once per processed record.
\<close>

theorem mutationCallback_per_record:
  "mutationCallback [] v = v \<and>
   mutationCallback (m # ms) v = mutationCallback ms (mutationCallback [m] v) \<and>
   (is_childList m \<longrightarrow>
      mutationCallback [m] v =
        needsRender (fold removeHotspot (removedNodes m) (fold addHotspot (addedNodes m) v)) \<and>
      mutationCallback [m] v = adds_then_removes [m] v) \<and>
   (\<not> is_childList m \<longrightarrow> mutationCallback [m] v = v) \<and>
   needsRenderCalls (mutationCallback ms v) = needsRenderCalls v + length (filter is_childList ms)"
  by (simp add: mutationCallback_requests)
    (simp add: mutationCallback_def processMutation_def adds_then_removes_def)

text \<open>
  A record adding two declarations of \<^verbatim>\<open>hotspot-1\<close> and removing one leaves count 1; a record
  of type \<^verbatim>\<open>attributes\<close> is skipped; of three records, two are processed.
\<close>

theorem mutationCallback_per_record_witness:
  "is_childList record1 \<and> \<not> is_childList record2 \<and>
   mutationCallback [record1] (new_viewer scene0) =
     needsRender (removeHotspot node1 (addHotspot node2 (addHotspot node1 (new_viewer scene0)))) \<and>
   count_of (mutationCallback [record1] (new_viewer scene0)) ''hotspot-1'' = 1 \<and>
   mutationCallback [record2] (new_viewer scene0) = new_viewer scene0 \<and>
   needsRenderCalls (mutationCallback [record1, record2, record1] (new_viewer scene0)) = 2"
proof -
  have a: "is_childList record1" and b: "\<not> is_childList record2"
    by (simp_all add: record1_def record2_def)
  have c: "count_of (needsRender (removeHotspot node1 (addHotspot node2 (addHotspot node1 (new_viewer scene0))))) ''hotspot-1'' = 1"
    by (simp add: eval_defs count_of_def needsRender_def)
  have d: "needsRenderCalls (new_viewer scene0) = 0" by (simp add: new_viewer_def)
  from mutationCallback_per_record [where m = record1 and v = "new_viewer scene0"
      and ms = "[record2, record1]"]
    mutationCallback_per_record [where m = record2 and v = "new_viewer scene0"
      and ms = "[record1, record2, record1]"]
    a b c d
  show ?thesis
    by (simp add: record1_def record2_def del: addHotspot.simps removeHotspot.simps)
qed

text \<open>
  C9 as stated fails for a batch of two records, the first removing the only declaration
  of \<^verbatim>\<open>hotspot-1\<close> and the second adding another: the remove is processed before the add, so
  the Hotspot is destroyed and a new object is built from the second declaration (adds before
  removes would keep the first object and its position), and \<^verbatim>\<open>$needsRender\<close> is called twice.
\<close>

theorem mutationCallback_per_record_counterexample:
  "hotspotMap (mutationCallback batch0 (addHotspot node1 (new_viewer scene0))) ''hotspot-1'' = Some 1 \<and>
   hotspotMap (adds_then_removes batch0 (addHotspot node1 (new_viewer scene0))) ''hotspot-1'' = Some 0 \<and>
   hs_position (heap (mutationCallback batch0 (addHotspot node1 (new_viewer scene0))) 1) = Some ''1 1 1'' \<and>
   hs_position (heap (adds_then_removes batch0 (addHotspot node1 (new_viewer scene0))) 0) = Some ''0 0 0'' \<and>
   needsRenderCalls (mutationCallback batch0 (addHotspot node1 (new_viewer scene0))) = 2 \<and>
   needsRenderCalls (adds_then_removes batch0 (addHotspot node1 (new_viewer scene0))) = 1"
  by (simp add: eval_defs batch0_def mutationCallback_def processMutation_def
      adds_then_removes_def needsRender_def)

end
